theory Spec2Isabelle
  imports Main
begin

section \<open>Errors\<close>

text \<open>
  Go functions of the repository return \<open>error\<close> values; \<open>nil\<close> is \<open>None\<close>.
  \<open>trace.Wrap(err)\<close> keeps a nil error nil and keeps the identity of a non-nil one
  (it only records a stack trace), so it is the identity here. \<open>trace.Wrap(err, msg)\<close>
  adds a message, written \<open>WrapMsg\<close>.
\<close>

datatype error =
    NotFound string
  | CompareFailed string
  | CertificateInvalid string
  | ContextCanceled
  | Errorf string
  | External string
  | PoolExhausted
  | WrapMsg error string

definition Wrap :: "error option \<Rightarrow> string \<Rightarrow> error option" where
  "Wrap err msg = (case err of None \<Rightarrow> None | Some e \<Rightarrow> Some (WrapMsg e msg))"

section \<open>CertChecker (package client)\<close>

type_synonym time = int

text \<open>The fields of \<open>x509.Certificate\<close> that the checker reads.\<close>

record x509_Certificate =
  Subject :: string
  NotBefore :: time
  NotAfter :: time

text \<open>
  A DER blob of a certificate chain is represented by what \<open>x509.ParseCertificate\<close>
  makes of it: the parsed certificate, or a parse error.
\<close>

datatype der = Encoded x509_Certificate | Malformed

record tls_Certificate =
  Certificate :: "der list"
  Leaf :: "x509_Certificate option"

text \<open>The zero value \<open>tls.Certificate{}\<close>, which \<open>NewCertChecker\<close> leaves in \<open>cert\<close>.\<close>

definition zeroCertificate :: tls_Certificate where
  "zeroCertificate = \<lparr>Certificate = [], Leaf = None\<rparr>"

definition ParseCertificate :: "der \<Rightarrow> error + x509_Certificate" where
  "ParseCertificate d =
     (case d of Encoded c \<Rightarrow> Inr c | Malformed \<Rightarrow> Inl (External ''x509: malformed certificate''))"

text \<open>
  Modelled from the spec: \<open>utils.TLSCertLeaf\<close> (package lib/utils) is not among the
  source files. It yields the parsed leaf of a certificate: the \<open>Leaf\<close> field when it is
  set, otherwise the first element of the chain parsed, and an error for an empty chain.
\<close>

definition TLSCertLeaf :: "tls_Certificate \<Rightarrow> error + x509_Certificate" where
  "TLSCertLeaf c =
     (case Leaf c of
        Some l \<Rightarrow> Inr l
      | None \<Rightarrow>
          (case Certificate c of
             [] \<Rightarrow> Inl (NotFound ''invalid certificate length'')
           | d # _ \<Rightarrow> ParseCertificate d))"

text \<open>
  Modelled from the spec: \<open>utils.InitCertLeaf\<close> (package lib/utils) is not among the
  source files. It sets the \<open>Leaf\<close> field of the certificate to its parsed leaf when the
  field is not set yet, and fails when the leaf cannot be obtained.
\<close>

definition InitCertLeaf :: "tls_Certificate \<Rightarrow> error + tls_Certificate" where
  "InitCertLeaf c =
     (case Leaf c of
        Some _ \<Rightarrow> Inr c
      | None \<Rightarrow>
          (case TLSCertLeaf c of
             Inl err \<Rightarrow> Inl err
           | Inr l \<Rightarrow> Inr (c\<lparr>Leaf := Some l\<rparr>)))"

text \<open>
  Modelled from the spec: \<open>utils.VerifyCertificateExpiry\<close> (package lib/utils) is not
  among the source files. A certificate is unexpired relative to the clock when the
  clock's time is neither after \<open>NotAfter\<close> nor before \<open>NotBefore\<close>.
\<close>

definition VerifyCertificateExpiry :: "x509_Certificate \<Rightarrow> time \<Rightarrow> error option" where
  "VerifyCertificateExpiry c now =
     (if NotAfter c < now then Some (CertificateInvalid ''expired'')
      else if now < NotBefore c then Some (CertificateInvalid ''not yet valid'')
      else None)"

text \<open>
  The interface \<open>CertIssuer\<close>. \<open>IssueCert\<close> talks to the cluster, so its outcome is
  the environment's: \<open>IssueCert i k\<close> is what the \<open>k\<close>-th invocation (counted from 0)
  of the issuer returns.
\<close>

record CertIssuer =
  CheckCert :: "x509_Certificate \<Rightarrow> error option"
  IssueCert :: "nat \<Rightarrow> error + tls_Certificate"

record CertChecker =
  certIssuer :: CertIssuer
  cert :: tls_Certificate

definition NewCertChecker :: "CertIssuer \<Rightarrow> CertChecker" where
  "NewCertChecker i = \<lparr>certIssuer = i, cert = zeroCertificate\<rparr>"

text \<open>\<open>checkCert\<close>, with \<open>now\<close> the reading of \<open>c.clock\<close>.\<close>

definition checkCert :: "CertChecker \<Rightarrow> time \<Rightarrow> error option" where
  "checkCert c now =
     (case TLSCertLeaf (cert c) of
        Inl err \<Rightarrow> Some err
      | Inr leaf \<Rightarrow>
          (case VerifyCertificateExpiry leaf now of
             Some err \<Rightarrow> Some err
           | None \<Rightarrow> CheckCert (certIssuer c) leaf))"

text \<open>
  \<open>GetCheckedCert\<close> runs under \<open>certMu\<close> from its first to its last statement, so a
  call is one atomic step on the checker. The state is the checker together with the
  number of \<open>IssueCert\<close> invocations made so far; the result is the returned pair
  (a certificate, or the error) and the state after the call.
\<close>

definition GetCheckedCert ::
  "time \<Rightarrow> CertChecker \<times> nat \<Rightarrow> (error + tls_Certificate) \<times> CertChecker \<times> nat" where
  "GetCheckedCert now = (\<lambda>(c, n).
     if checkCert c now = None then (Inr (cert c), c, n)
     else
       (case IssueCert (certIssuer c) n of
          Inl err \<Rightarrow> (Inl err, c, Suc n)
        | Inr issued \<Rightarrow>
            (case InitCertLeaf issued of
               Inl err \<Rightarrow> (Inl err, c, Suc n)
             | Inr cert' \<Rightarrow> (Inr cert', c\<lparr>cert := cert'\<rparr>, Suc n))))"

text \<open>
  Calls of several goroutines on one checker are serialised by \<open>certMu\<close>: they take
  effect one after the other, in the order in which they get the lock. \<open>ts\<close> lists the
  clock readings of the calls in that order.
\<close>

fun GetCheckedCerts ::
  "time list \<Rightarrow> CertChecker \<times> nat \<Rightarrow> (error + tls_Certificate) list \<times> CertChecker \<times> nat" where
  "GetCheckedCerts [] s = ([], s)"
| "GetCheckedCerts (t # ts) s =
     (case GetCheckedCert t s of
        (r, s') \<Rightarrow> (case GetCheckedCerts ts s' of (rs, s'') \<Rightarrow> (r # rs, s'')))"

text \<open>Concrete issuers and certificates for the examples.\<close>

definition leafA :: x509_Certificate where
  "leafA = \<lparr>Subject = ''app'', NotBefore = 0, NotAfter = 100\<rparr>"

definition certA :: tls_Certificate where
  "certA = \<lparr>Certificate = [Encoded leafA], Leaf = None\<rparr>"

definition certA' :: tls_Certificate where
  "certA' = \<lparr>Certificate = [Encoded leafA], Leaf = Some leafA\<rparr>"

definition leafB :: x509_Certificate where
  "leafB = \<lparr>Subject = ''app'', NotBefore = 100, NotAfter = 200\<rparr>"

definition certB :: tls_Certificate where
  "certB = \<lparr>Certificate = [Encoded leafB], Leaf = None\<rparr>"

definition certB' :: tls_Certificate where
  "certB' = \<lparr>Certificate = [Encoded leafB], Leaf = Some leafB\<rparr>"

definition goodIssuer :: CertIssuer where
  "goodIssuer = \<lparr>CheckCert = (\<lambda>_. None), IssueCert = (\<lambda>k. Inr (if k = 0 then certA else certB))\<rparr>"

definition failingIssuer :: CertIssuer where
  "failingIssuer = \<lparr>CheckCert = (\<lambda>_. None), IssueCert = (\<lambda>_. Inl (External ''access denied''))\<rparr>"

text \<open>
  The spec's condition for serving from the cache, in its own words: a certificate is
  cached (its leaf can be read), it is unexpired relative to the checker's clock, and
  it passes the issuer's \<open>CheckCert\<close>.
\<close>

definition cachedValid :: "CertChecker \<Rightarrow> time \<Rightarrow> bool" where
  "cachedValid c now =
     (case TLSCertLeaf (cert c) of
        Inl _ \<Rightarrow> False
      | Inr leaf \<Rightarrow>
          NotBefore leaf \<le> now \<and> now \<le> NotAfter leaf \<and> CheckCert (certIssuer c) leaf = None)"

definition emptyIssuer :: CertIssuer where
  "emptyIssuer = \<lparr>CheckCert = (\<lambda>_. None), IssueCert = (\<lambda>_. Inr zeroCertificate)\<rparr>"

definition checkerA :: CertChecker where
  "checkerA = \<lparr>certIssuer = goodIssuer, cert = certA'\<rparr>"

section \<open>ProcessManager (package vnet)\<close>

text \<open>
  \<open>ProcessManager\<close> wraps an \<open>errgroup.Group\<close> made by \<open>errgroup.WithContext\<close>
  and the cancel function of the context under it. The group is a library type
  (golang.org/x/sync); its documented behaviour is written out here: \<open>Go\<close> starts the
  function in a goroutine, the first function to return a non-nil error has this error
  kept and the group's context cancelled, and \<open>Wait\<close> blocks until every function
  started by \<open>Go\<close> has returned, cancels the context and returns the kept error.

  \<open>g_err\<close> is the group's field \<open>err\<close>. Each registered task is \<open>Running\<close>
  or has \<open>Returned\<close> its result. \<open>ctxDone\<close> says whether \<open>pm.ctx\<close>, the context
  handed to every task, is cancelled: by \<open>pm.cancel\<close> on the parent context or by the
  group.
\<close>

datatype task = Running | Returned "error option"

record ProcessManager =
  tasks :: "task list"
  g_err :: "error option"
  ctxDone :: bool

definition newProcessManager :: ProcessManager where
  "newProcessManager = \<lparr>tasks = [], g_err = None, ctxDone = False\<rparr>"

definition AddBackgroundTask :: "ProcessManager \<Rightarrow> ProcessManager" where
  "AddBackgroundTask pm = pm\<lparr>tasks := tasks pm @ [Running]\<rparr>"

definition cancel :: "ProcessManager \<Rightarrow> ProcessManager" where
  "cancel pm = pm\<lparr>ctxDone := True\<rparr>"

text \<open>
  The end of the goroutine that \<open>g.Go\<close> started for task \<open>i\<close>, when the task function
  returns \<open>e\<close>: the error is kept if it is the first one (\<open>errOnce\<close>), the context is
  cancelled with it, and the task counts as finished. A return of a task that is not
  running does not exist and changes nothing.
\<close>

definition taskReturns :: "nat \<Rightarrow> error option \<Rightarrow> ProcessManager \<Rightarrow> ProcessManager" where
  "taskReturns i e pm =
     (if i < length (tasks pm) \<and> tasks pm ! i = Running then
        (case e of
           None \<Rightarrow> pm\<lparr>tasks := (tasks pm)[i := Returned e]\<rparr>
         | Some x \<Rightarrow>
             (if g_err pm = None
              then pm\<lparr>tasks := (tasks pm)[i := Returned e], g_err := Some x, ctxDone := True\<rparr>
              else pm\<lparr>tasks := (tasks pm)[i := Returned e]\<rparr>))
      else pm)"




definition allReturned :: "ProcessManager \<Rightarrow> bool" where
  "allReturned pm = list_all (\<lambda>t. t \<noteq> Running) (tasks pm)"

text \<open>
  \<open>Wait\<close> and \<open>Close\<close> block. \<open>rs\<close> lists the returns of task functions that happen
  while the call is blocked, oldest first. The call returns once every task has returned:
  the result is \<open>None\<close> when a task is still running after \<open>rs\<close> (the call has not
  returned), and otherwise the returned error together with the manager's state.
\<close>

definition Wait ::
  "ProcessManager \<Rightarrow> (nat \<times> error option) list \<Rightarrow> (error option \<times> ProcessManager) option" where
  "Wait pm rs =
     (let pm' = foldl (\<lambda>p (i, e). taskReturns i e p) pm rs
      in if allReturned pm' then Some (g_err pm', pm'\<lparr>ctxDone := True\<rparr>) else None)"

definition Close ::
  "ProcessManager \<Rightarrow> (nat \<times> error option) list \<Rightarrow> (error option \<times> ProcessManager) option" where
  "Close pm rs = Wait (cancel pm) rs"


section \<open>SetupAndRun (package vnet)\<close>

text \<open>
  What the \<open>select\<close> of \<open>SetupAndRun\<close> takes: \<open>ctx.Done()\<close>, with \<open>ctx.Err()\<close>, or
  a value of \<open>tunOrAdminSubcommandErrC\<close>, sent by the admin subcommand's task or by the
  goroutine that receives the TUN device, together with whether \<open>tun\<close> is set then.
\<close>

datatype setup_select = CtxDone error | ErrC "error option" bool

text \<open>
  The outcomes of the steps that \<open>SetupAndRun\<close> leaves to its collaborators.
  \<open>task_returns\<close> lists the returns of the registered tasks, oldest first, as they
  have happened when the deferred \<open>pm.Close()\<close> stops waiting for more.
\<close>

record setup_env =
  IPv6Prefix_result :: "error + string"
  createUnixSocket_result :: "error + string"
  select_result :: setup_select
  newNetworkStack_result :: "error option"
  task_returns :: "(nat \<times> error option) list"

text \<open>
  The deferred function on a return with \<open>success = false\<close>: \<open>pm.Close()\<close>, whose
  result is dropped. \<open>SetupAndRun\<close> returns \<open>nil, err\<close> after it; the manager's last
  state is kept beside the error to state what has become of it. \<open>None\<close>: \<open>Close\<close>
  is still blocked, \<open>SetupAndRun\<close> has not returned.
\<close>

definition closeOnFailure ::
  "setup_env \<Rightarrow> error \<Rightarrow> ProcessManager
     \<Rightarrow> ((error \<times> ProcessManager option) + ProcessManager) option" where
  "closeOnFailure env e pm =
     (case Close pm (task_returns env) of
        None \<Rightarrow> None
      | Some (_, pm') \<Rightarrow> Some (Inl (e, Some pm')))"

definition SetupAndRun ::
  "setup_env \<Rightarrow> ((error \<times> ProcessManager option) + ProcessManager) option" where
  "SetupAndRun env =
     (case IPv6Prefix_result env of
        Inl e \<Rightarrow> Some (Inl (e, None))
      | Inr ipv6Prefix \<Rightarrow>
          (let pm = newProcessManager in
           case createUnixSocket_result env of
             Inl e \<Rightarrow> closeOnFailure env e pm
           | Inr socketPath \<Rightarrow>
               (let pm1 = AddBackgroundTask pm;
                    pm2 = AddBackgroundTask pm1
                in case select_result env of
                     CtxDone e \<Rightarrow> closeOnFailure env e pm2
                   | ErrC (Some e) _ \<Rightarrow> closeOnFailure env e pm2
                   | ErrC None False \<Rightarrow>
                       closeOnFailure env
                         (Errorf ''no TUN device created, execAdminSubcommand must have returned early with no error'')
                         pm2
                   | ErrC None True \<Rightarrow>
                       (case newNetworkStack_result env of
                          Some e \<Rightarrow> closeOnFailure env e pm2
                        | None \<Rightarrow> Some (Inr (AddBackgroundTask pm2))))))"

text \<open>Environments for the examples; the two tasks return when the context is cancelled.\<close>

definition env_ok :: setup_env where
  "env_ok = \<lparr>IPv6Prefix_result = Inr ''fd00::'', createUnixSocket_result = Inr ''/tmp/vnet.sock'',
     select_result = ErrC None True, newNetworkStack_result = None,
     task_returns = [(0, None), (1, Some ContextCanceled)]\<rparr>"

definition env_canceled :: setup_env where
  "env_canceled = env_ok\<lparr>select_result := CtxDone ContextCanceled\<rparr>"

definition env_admin_failed :: setup_env where
  "env_admin_failed = env_ok\<lparr>select_result := ErrC (Some (External ''osascript: prompt closed'')) False,
     task_returns := [(1, Some (External ''osascript: prompt closed'')), (0, None)]\<rparr>"

definition env_stack_failed :: setup_env where
  "env_stack_failed = env_ok\<lparr>newNetworkStack_result := Some (External ''stack'')\<rparr>"

section \<open>Service (teleterm's gRPC service for VNet)\<close>

datatype status = statusNotRunning | statusRunning | statusClosed

text \<open>
  \<open>Start\<close> launches a goroutine that runs \<open>vnet.Run\<close>, then sends the error to
  \<open>s.stopErrC\<close> (unless it is nil or \<open>context.Canceled\<close>) and closes the channel, then
  takes \<open>s.mu\<close> and sets \<open>s.status = statusNotRunning\<close>. A \<open>run_goroutine\<close> is one such
  goroutine: \<open>InRun\<close> while \<open>vnet.Run\<close> has not returned, \<open>AtLock\<close> once the channel
  is closed and the goroutine waits for \<open>s.mu\<close>, \<open>Finished\<close> after its last
  statement. \<open>errC\<close> is what the buffer of its channel holds.
\<close>

datatype phase = InRun | AtLock | Finished

record run_goroutine =
  phase :: phase
  errC :: "error list"

text \<open>
  \<open>instances\<close> lists the goroutines started by \<open>Start\<close>, oldest first. The fields
  \<open>s.stopErrC\<close> and \<open>s.cancel\<close> belong to the newest one: \<open>Start\<close> assigns both
  when it launches a goroutine.
\<close>

record Service =
  status :: status
  instances :: "run_goroutine list"

definition New :: Service where
  "New = \<lparr>status = statusNotRunning, instances = []\<rparr>"

text \<open>\<open>errors.Is(err, context.Canceled)\<close>.\<close>

fun isCanceled :: "error \<Rightarrow> bool" where
  "isCanceled ContextCanceled = True"
| "isCanceled (WrapMsg e _) = isCanceled e"
| "isCanceled _ = False"

text \<open>
  What the goroutine does between the return of \<open>vnet.Run\<close> with \<open>e\<close> and its
  \<open>s.mu.Lock()\<close>.
\<close>

definition runReturned :: "error option \<Rightarrow> run_goroutine \<Rightarrow> run_goroutine" where
  "runReturned e g =
     (if phase g = InRun then
        \<lparr>phase = AtLock,
         errC = errC g @ (case e of None \<Rightarrow> [] | Some x \<Rightarrow> if isCanceled x then [] else [x])\<rparr>
      else g)"

text \<open>
  \<open>Start\<close>, with \<open>setup\<close> the outcome of \<open>NewUsageReporter\<close> and \<open>vnet.Setup\<close>
  (the error of the first that fails). The result is the error of the RPC, \<open>None\<close> for
  a \<open>StartResponse\<close>.
\<close>

definition Start :: "error option \<Rightarrow> Service \<Rightarrow> error option \<times> Service" where
  "Start setup s =
     (if status s = statusClosed then (Some (CompareFailed ''VNet service has been closed''), s)
      else if status s = statusRunning then (None, s)
      else
        (case setup of
           Some e \<Rightarrow> (Some e, s)
         | None \<Rightarrow>
             (None, s\<lparr>instances := instances s @ [\<lparr>phase = InRun, errC = []\<rparr>],
                      status := statusRunning\<rparr>)))"

text \<open>
  \<open>stopLocked\<close>. In the running state it cancels the newest goroutine's context,
  which makes its \<open>vnet.Run\<close> return, with \<open>runErr\<close>, if it has not returned yet;
  then it receives from \<open>s.stopErrC\<close>: the buffered error, or nil from the closed
  channel. The status is running only after \<open>Start\<close> has launched a goroutine, so the
  list is not empty there.
\<close>

definition stopLocked :: "error option \<Rightarrow> Service \<Rightarrow> error option \<times> Service" where
  "stopLocked runErr s =
     (if status s = statusClosed then (Some (CompareFailed ''VNet service has been closed''), s)
      else if status s = statusNotRunning then (None, s)
      else
        (case rev (instances s) of
           [] \<Rightarrow> (None, s\<lparr>status := statusNotRunning\<rparr>)
         | g # older \<Rightarrow>
             (let g' = runReturned runErr g in
              case errC g' of
                [] \<Rightarrow> (None, s\<lparr>status := statusNotRunning, instances := rev older @ [g']\<rparr>)
              | x # xs \<Rightarrow>
                  (Some x,
                   s\<lparr>status := statusNotRunning, instances := rev older @ [g'\<lparr>errC := xs\<rparr>]\<rparr>))))"

text \<open>
  \<open>Stop\<close> runs \<open>stopLocked\<close> in a goroutine and selects between its result and
  \<open>ctx.Done()\<close>; \<open>ctxErr\<close> is \<open>ctx.Err()\<close> when the select takes the context's case.
\<close>

definition Stop :: "error option \<Rightarrow> error option \<Rightarrow> Service \<Rightarrow> error option \<times> Service" where
  "Stop ctxErr runErr s =
     (case ctxErr of
        Some e \<Rightarrow> (Some e, snd (stopLocked runErr s))
      | None \<Rightarrow> stopLocked runErr s)"

definition Close_Service :: "error option \<Rightarrow> Service \<Rightarrow> error option \<times> Service" where
  "Close_Service runErr s =
     (case stopLocked runErr s of (e, s') \<Rightarrow> (e, s'\<lparr>status := statusClosed\<rparr>))"

text \<open>
  The last statements of goroutine \<open>k\<close>, run once it has \<open>s.mu\<close>:
  \<open>s.status = statusNotRunning\<close>.
\<close>

definition goroutineExit :: "nat \<Rightarrow> Service \<Rightarrow> Service" where
  "goroutineExit k s =
     (if k < length (instances s) \<and> phase (instances s ! k) = AtLock then
        s\<lparr>status := statusNotRunning,
          instances := (instances s)[k := (instances s ! k)\<lparr>phase := Finished\<rparr>]\<rparr>
      else s)"

text \<open>\<open>vnet.Run\<close> of goroutine \<open>k\<close> returns \<open>e\<close> without having been cancelled.\<close>

definition runExits :: "nat \<Rightarrow> error option \<Rightarrow> Service \<Rightarrow> Service" where
  "runExits k e s =
     (if k < length (instances s) then
        s\<lparr>instances := (instances s)[k := runReturned e (instances s ! k)]\<rparr>
      else s)"

datatype service_event =
    StartRPC "error option"
  | StopRPC "error option" "error option"
  | CloseCall "error option"
  | RunExits nat "error option"
  | GoroutineExit nat

fun service_step :: "Service \<Rightarrow> service_event \<Rightarrow> Service" where
  "service_step s (StartRPC setup) = snd (Start setup s)"
| "service_step s (StopRPC ctxErr runErr) = snd (Stop ctxErr runErr s)"
| "service_step s (CloseCall runErr) = snd (Close_Service runErr s)"
| "service_step s (RunExits k e) = runExits k e s"
| "service_step s (GoroutineExit k) = goroutineExit k s"

section \<open>AdminSubcommand and the OS configuration loop (package vnet)\<close>

record osConfig =
  tunName :: string
  tunIPv6 :: string
  dnsAddr :: string
  dnsZones :: "string list"

text \<open>The zero value \<open>osConfig{}\<close>, passed to \<open>configureOS\<close> on shutdown.\<close>

definition emptyOSConfig :: osConfig where
  "emptyOSConfig = \<lparr>tunName = [], tunIPv6 = [], dnsAddr = [], dnsZones = []\<rparr>"

text \<open>
  The host as the subcommand meets it. \<open>profile.ListProfileNames\<close> reads the user's
  profile directory and \<open>configureOS\<close> is the platform's routine (the only one among
  the source files is the stub for platforms other than macOS, which always fails), so
  both outcomes are the environment's: \<open>ListProfileNames env k\<close> is what the \<open>k\<close>-th
  listing (counted from 0) returns and \<open>configureOS_result env k cfg\<close> what the
  \<open>k\<close>-th call of \<open>configureOS\<close> returns when given \<open>cfg\<close>.
\<close>

record os_env =
  ListProfileNames :: "nat \<Rightarrow> error + string list"
  configureOS_result :: "nat \<Rightarrow> osConfig \<Rightarrow> error option"

text \<open>
  What has been done to the host so far: the number of profile listings and the
  configurations handed to \<open>configureOS\<close>, oldest first.
\<close>

record host =
  profileListings :: nat
  configured :: "osConfig list"

text \<open>The function \<open>dnsZones()\<close>; the field of \<open>osConfig\<close> has the name already.\<close>

definition dnsZones_call :: "os_env \<Rightarrow> host \<Rightarrow> (error + string list) \<times> host" where
  "dnsZones_call env h =
     ((case ListProfileNames env (profileListings h) of
         Inl e \<Rightarrow> Inl (WrapMsg e ''listing profiles'')
       | Inr profileNames \<Rightarrow> Inr profileNames),
      h\<lparr>profileListings := Suc (profileListings h)\<rparr>)"

definition configureOS :: "os_env \<Rightarrow> osConfig \<Rightarrow> host \<Rightarrow> error option \<times> host" where
  "configureOS env cfg h =
     (configureOS_result env (length (configured h)) cfg, h\<lparr>configured := configured h @ [cfg]\<rparr>)"

text \<open>
  The goroutine of \<open>createAndSetupTUNDeviceAsRoot\<close>: \<open>Spawned cfg\<close> before its first
  statement, with the configuration it starts from; \<open>InLoop cfg\<close> while it waits in
  the \<open>select\<close> of its loop; \<open>Exited v\<close> once it has sent \<open>v\<close> on \<open>errCh\<close>, which it
  does exactly once, as its last action.
\<close>

datatype os_goroutine = Spawned osConfig | InLoop osConfig | Exited "error option"

record admin_state =
  goroutine :: os_goroutine
  host :: host
  cancelled :: bool

text \<open>
  The two statements that the goroutine runs first and again on every tick: list the
  DNS zones into \<open>cfg\<close>, configure the host. An error of either is sent on \<open>errCh\<close>
  and the goroutine returns.
\<close>

definition applyZones :: "os_env \<Rightarrow> osConfig \<Rightarrow> host \<Rightarrow> os_goroutine \<times> host" where
  "applyZones env cfg h =
     (case dnsZones_call env h of
        (Inl e, h1) \<Rightarrow> (Exited (Some (WrapMsg e ''getting DNS zones'')), h1)
      | (Inr zones, h1) \<Rightarrow>
          (case configureOS env (cfg\<lparr>dnsZones := zones\<rparr>) h1 of
             (Some e, h2) \<Rightarrow> (Exited (Some (WrapMsg e ''configuring OS'')), h2)
           | (None, h2) \<Rightarrow> (InLoop (cfg\<lparr>dnsZones := zones\<rparr>), h2)))"

text \<open>
  A schedule is a list of events. \<open>GInit\<close>: the goroutine runs up to its loop.
  \<open>GTick\<close>: the \<open>select\<close> of its loop takes the 10 second ticker. \<open>GDone\<close>: that
  \<open>select\<close> takes \<open>ctx.Done()\<close>, possible once the context is cancelled; the goroutine
  leaves the loop and sends the result of deconfiguring the host. \<open>ATick ok\<close>: the
  \<open>select\<close> of \<open>AdminSubcommand\<close> takes its 1 second ticker, and \<open>os.Stat(socketPath)\<close>
  succeeds or not. \<open>AErr\<close>: that \<open>select\<close> takes \<open>errCh\<close>, possible once the
  goroutine has sent. An event that is not possible in a state changes nothing.
\<close>

datatype admin_event = GInit | GTick | GDone | ATick bool | AErr

fun gstep :: "os_env \<Rightarrow> admin_event \<Rightarrow> admin_state \<Rightarrow> admin_state" where
  "gstep env GInit st =
     (case goroutine st of
        Spawned cfg \<Rightarrow>
          (case applyZones env cfg (host st) of (g, h) \<Rightarrow> st\<lparr>goroutine := g, host := h\<rparr>)
      | _ \<Rightarrow> st)"
| "gstep env GTick st =
     (case goroutine st of
        InLoop cfg \<Rightarrow>
          (case applyZones env cfg (host st) of (g, h) \<Rightarrow> st\<lparr>goroutine := g, host := h\<rparr>)
      | _ \<Rightarrow> st)"
| "gstep env GDone st =
     (case goroutine st of
        InLoop cfg \<Rightarrow>
          (if cancelled st then
             (case configureOS env emptyOSConfig (host st) of
                (v, h) \<Rightarrow> st\<lparr>goroutine := Exited v, host := h\<rparr>)
           else st)
      | _ \<Rightarrow> st)"
| "gstep env _ st = st"

text \<open>
  \<open>return trace.Wrap(<-errCh)\<close> after \<open>cancel()\<close>: blocked until the goroutine has
  sent. \<open>None\<close>: the schedule ends while the call is still blocked.
\<close>

fun awaitErrCh ::
  "os_env \<Rightarrow> admin_event list \<Rightarrow> admin_state \<Rightarrow> (error option \<times> admin_state) option" where
  "awaitErrCh env [] st = (case goroutine st of Exited v \<Rightarrow> Some (v, st) | _ \<Rightarrow> None)"
| "awaitErrCh env (ev # evs) st =
     (case goroutine st of
        Exited v \<Rightarrow> Some (v, st)
      | _ \<Rightarrow> awaitErrCh env evs (gstep env ev st))"

text \<open>
  The loop at the end of \<open>AdminSubcommand\<close>. On return the deferred \<open>cancel()\<close> has
  run, so the context is cancelled in the state returned.
\<close>

fun waitLoop ::
  "os_env \<Rightarrow> admin_event list \<Rightarrow> admin_state \<Rightarrow> (error option \<times> admin_state) option" where
  "waitLoop env [] st = None"
| "waitLoop env (ATick ok # evs) st =
     (if ok then waitLoop env evs st else awaitErrCh env evs (st\<lparr>cancelled := True\<rparr>))"
| "waitLoop env (AErr # evs) st =
     (case goroutine st of
        Exited v \<Rightarrow> Some (v, st\<lparr>cancelled := True\<rparr>)
      | _ \<Rightarrow> waitLoop env evs st)"
| "waitLoop env (ev # evs) st = waitLoop env evs (gstep env ev st)"

text \<open>
  The collaborators of \<open>AdminSubcommand\<close>: \<open>tun.CreateTUN\<close>, the device's
  \<open>Name()\<close> (its \<open>k\<close>-th call) and \<open>sendTUNNameAndFd\<close>.
\<close>

record admin_env =
  CreateTUN_result :: "error option"
  Name_result :: "nat \<Rightarrow> error + string"
  sendTUNNameAndFd_result :: "error option"
  osEnv :: os_env

definition createTUNDevice :: "admin_env \<Rightarrow> error + string" where
  "createTUNDevice env =
     (case CreateTUN_result env of
        Some e \<Rightarrow> Inl (WrapMsg e ''creating TUN device'')
      | None \<Rightarrow>
          (case Name_result env 0 of
             Inl e \<Rightarrow> Inl (WrapMsg e ''getting TUN device name'')
           | Inr name \<Rightarrow> Inr name))"

text \<open>\<open>AdminSubcommand\<close> from the moment it has the TUN device.\<close>

definition afterTun ::
  "admin_env \<Rightarrow> admin_event list \<Rightarrow> admin_state \<Rightarrow> (error option \<times> admin_state) option" where
  "afterTun env evs st =
     (case Name_result env 1 of
        Inl e \<Rightarrow> Some (Some (WrapMsg e ''getting TUN name''), st\<lparr>cancelled := True\<rparr>)
      | Inr name \<Rightarrow>
          (case sendTUNNameAndFd_result env of
             Some e \<Rightarrow> Some (Some (WrapMsg e ''sending TUN over socket''), st\<lparr>cancelled := True\<rparr>)
           | None \<Rightarrow> waitLoop (osEnv env) evs st))"

text \<open>
  The first \<open>select\<close> of \<open>AdminSubcommand\<close>. The device is in \<open>tunCh\<close> already; the
  \<open>select\<close> takes it unless the schedule has the goroutine fail first and then names
  \<open>errCh\<close>.
\<close>

fun firstSelect ::
  "admin_env \<Rightarrow> admin_event list \<Rightarrow> admin_state \<Rightarrow> (error option \<times> admin_state) option" where
  "firstSelect env (GInit # evs) st = firstSelect env evs (gstep (osEnv env) GInit st)"
| "firstSelect env (GTick # evs) st = firstSelect env evs (gstep (osEnv env) GTick st)"
| "firstSelect env (AErr # evs) st =
     (case goroutine st of
        Exited v \<Rightarrow> Some (Wrap v ''performing admin setup'', st\<lparr>cancelled := True\<rparr>)
      | _ \<Rightarrow> afterTun env evs st)"
| "firstSelect env evs st = afterTun env evs st"

definition AdminSubcommand ::
  "admin_env \<Rightarrow> string \<Rightarrow> string \<Rightarrow> admin_event list \<Rightarrow> host
     \<Rightarrow> (error option \<times> admin_state) option" where
  "AdminSubcommand env ipv6Prefix dnsAddr' evs h =
     (case createTUNDevice env of
        Inl e \<Rightarrow>
          Some (Some (WrapMsg (WrapMsg e ''creating TUN device'') ''performing admin setup''),
                \<lparr>goroutine = Exited (Some (WrapMsg e ''creating TUN device'')), host = h,
                 cancelled = True\<rparr>)
      | Inr name \<Rightarrow>
          firstSelect env evs
            \<lparr>goroutine =
               Spawned \<lparr>tunName = name, tunIPv6 = ipv6Prefix @ ''1'', dnsAddr = dnsAddr', dnsZones = []\<rparr>,
             host = h, cancelled = False\<rparr>)"

text \<open>Environments for the examples.\<close>

definition host0 :: host where
  "host0 = \<lparr>profileListings = 0, configured = []\<rparr>"

definition os_ok :: os_env where
  "os_ok = \<lparr>ListProfileNames = (\<lambda>_. Inr [''proxy.example.com'']), configureOS_result = (\<lambda>_ _. None)\<rparr>"

text \<open>The second listing of the profiles fails, every other one succeeds.\<close>

definition os_flaky :: os_env where
  "os_flaky = \<lparr>ListProfileNames = (\<lambda>k. if k = 1 then Inl (External ''EIO'') else Inr [''proxy.example.com'']),
               configureOS_result = (\<lambda>_ _. None)\<rparr>"

definition admin_ok :: "os_env \<Rightarrow> admin_env" where
  "admin_ok e = \<lparr>CreateTUN_result = None, Name_result = (\<lambda>_. Inr ''utun4''),
                 sendTUNNameAndFd_result = None, osEnv = e\<rparr>"

definition cfg1 :: osConfig where
  "cfg1 = \<lparr>tunName = ''utun4'', tunIPv6 = ''fd00::1'', dnsAddr = ''fd00::2'',
           dnsZones = [''proxy.example.com'']\<rparr>"

text \<open>The second call of \<open>configureOS\<close> fails, every other one succeeds.\<close>

definition os_cfgfail :: os_env where
  "os_cfgfail = \<lparr>ListProfileNames = (\<lambda>_. Inr [''proxy.example.com'']),
                 configureOS_result = (\<lambda>k _. if k = 1 then Some (External ''route'') else None)\<rparr>"

text \<open>The state after the goroutine has configured the host once and waits in its loop.\<close>

definition st1 :: admin_state where
  "st1 = \<lparr>goroutine = InLoop cfg1, host = \<lparr>profileListings = 1, configured = [cfg1]\<rparr>,
          cancelled = False\<rparr>"

section \<open>AddressAllocator\<close>

text \<open>
  Modelled from the spec: the address allocator (\<open>Allocate\<close>, \<open>Lookup\<close>, \<open>Release\<close>
  and its lease table) is not among the source files. The definitions follow sections 3
  and 4.1 of the spec: an \<open>AppKey\<close> is a profile name, an optional leaf cluster name
  and an app name; a lease binds a synthetic address to an \<open>AppKey\<close> and records the
  allocation time; the pool is a bounded range of addresses; \<open>Allocate\<close> returns the
  address of the key's lease when there is one, and otherwise leases the next free address
  of the pool, in the pool's order, or fails with \<open>PoolExhausted\<close>; \<open>Lookup\<close> finds the
  key that holds an address; \<open>Release\<close> frees the key's lease for reuse.
\<close>

record AppKey =
  profileName :: string
  leafClusterName :: "string option"
  appName :: string

type_synonym address = nat

record AddressLease =
  address :: address
  appKey :: AppKey
  allocatedAt :: time

record AddressAllocator =
  pool :: "address list"
  leases :: "AddressLease list"

definition NewAddressAllocator :: "address list \<Rightarrow> AddressAllocator" where
  "NewAddressAllocator p = \<lparr>pool = p, leases = []\<rparr>"

definition leaseOf :: "AddressAllocator \<Rightarrow> AppKey \<Rightarrow> AddressLease option" where
  "leaseOf a k = find (\<lambda>l. appKey l = k) (leases a)"

definition nextFree :: "AddressAllocator \<Rightarrow> address option" where
  "nextFree a = find (\<lambda>x. x \<notin> set (map address (leases a))) (pool a)"

definition Allocate :: "time \<Rightarrow> AppKey \<Rightarrow> AddressAllocator \<Rightarrow> (error + address) \<times> AddressAllocator" where
  "Allocate now k a =
     (case leaseOf a k of
        Some l \<Rightarrow> (Inr (address l), a)
      | None \<Rightarrow>
          (case nextFree a of
             None \<Rightarrow> (Inl PoolExhausted, a)
           | Some x \<Rightarrow>
               (Inr x, a\<lparr>leases := leases a @ [\<lparr>address = x, appKey = k, allocatedAt = now\<rparr>]\<rparr>)))"

definition Lookup :: "AddressAllocator \<Rightarrow> address \<Rightarrow> AppKey option" where
  "Lookup a x = map_option appKey (find (\<lambda>l. address l = x) (leases a))"

definition Release :: "AppKey \<Rightarrow> AddressAllocator \<Rightarrow> AddressAllocator" where
  "Release k a = a\<lparr>leases := filter (\<lambda>l. appKey l \<noteq> k) (leases a)\<rparr>"

text \<open>The address that a key holds, if it holds one.\<close>

definition held :: "AddressAllocator \<Rightarrow> AppKey \<Rightarrow> address option" where
  "held a k = map_option address (leaseOf a k)"

datatype alloc_op = AllocateOp time AppKey | ReleaseOp AppKey

fun alloc_step :: "AddressAllocator \<Rightarrow> alloc_op \<Rightarrow> AddressAllocator" where
  "alloc_step a (AllocateOp now k) = snd (Allocate now k a)"
| "alloc_step a (ReleaseOp k) = Release k a"

definition alloc_run :: "alloc_op list \<Rightarrow> AddressAllocator \<Rightarrow> AddressAllocator" where
  "alloc_run ops a = foldl alloc_step a ops"

definition echo1 :: AppKey where
  "echo1 = \<lparr>profileName = ''root1.example.com'', leafClusterName = None, appName = ''echo1''\<rparr>"

definition echo2 :: AppKey where
  "echo2 = \<lparr>profileName = ''root1.example.com'', leafClusterName = None, appName = ''echo2''\<rparr>"

text \<open>No address is leased twice.\<close>

definition alloc_inv :: "AddressAllocator \<Rightarrow> bool" where
  "alloc_inv a \<longleftrightarrow> distinct (map address (leases a))"

section \<open>Properties of CertChecker\<close>

lemma checkCert_new: "checkCert (NewCertChecker i) now = Some (NotFound ''invalid certificate length'')"
  by (simp add: checkCert_def NewCertChecker_def zeroCertificate_def TLSCertLeaf_def)

text \<open>
  C5: when \<open>IssueCert\<close> fails, \<open>GetCheckedCert\<close> returns that error from the same
  call, has invoked \<open>IssueCert\<close> exactly once (no retry), and leaves the checker,
  and so its cached certificate, as it was.
\<close>

theorem GetCheckedCert_issue_error:
  assumes "checkCert c now \<noteq> None"
    and "IssueCert (certIssuer c) n = Inl err"
  shows "GetCheckedCert now (c, n) = (Inl err, c, Suc n)"
  using assms by (simp add: GetCheckedCert_def)

theorem GetCheckedCert_issue_error_witness:
  "checkCert (NewCertChecker failingIssuer) 5 \<noteq> None
   \<and> IssueCert (certIssuer (NewCertChecker failingIssuer)) 0 = Inl (External ''access denied'')
   \<and> GetCheckedCert 5 (NewCertChecker failingIssuer, 0)
       = (Inl (External ''access denied''), NewCertChecker failingIssuer, Suc 0)"
proof -
  have a: "checkCert (NewCertChecker failingIssuer) 5 \<noteq> None"
    by (simp add: checkCert_new)
  have b: "IssueCert (certIssuer (NewCertChecker failingIssuer)) 0 = Inl (External ''access denied'')"
    by (simp add: NewCertChecker_def failingIssuer_def)
  from a b GetCheckedCert_issue_error [OF a b] show ?thesis by simp
qed



lemma checkCert_None_iff: "checkCert c now = None \<longleftrightarrow> cachedValid c now"
  by (auto simp: checkCert_def cachedValid_def VerifyCertificateExpiry_def
      split: sum.splits option.splits if_splits)

lemma GetCheckedCerts_all_cached:
  "\<forall>t \<in> set ts. checkCert c t = None \<Longrightarrow>
   GetCheckedCerts ts (c, n) = (replicate (length ts) (Inr (cert c)), c, n)"
  by (induction ts) (simp_all add: GetCheckedCert_def)

text \<open>
  C1 (amended): a call of \<open>GetCheckedCert\<close> whose cached certificate is present,
  unexpired relative to the clock and accepted by \<open>CheckCert\<close> returns the cached
  certificate, invokes \<open>IssueCert\<close> not at all and leaves the checker as it was.
  Every other call invokes \<open>IssueCert\<close> exactly once. When that invocation returns a
  certificate whose leaf can be initialised, the certificate (with its leaf set) is stored
  as the cached one and returned; when the invocation fails, or the leaf cannot be
  initialised, the error is returned and the cached certificate stays. A cached
  certificate whose \<open>NotAfter\<close> lies before the clock's time is not valid, so a call
  after expiry reissues.
\<close>

theorem GetCheckedCert_cached_or_issued:
  "(cachedValid c now \<longrightarrow> GetCheckedCert now (c, n) = (Inr (cert c), c, n))
   \<and> (\<not> cachedValid c now \<longrightarrow> snd (snd (GetCheckedCert now (c, n))) = Suc n)
   \<and> (\<not> cachedValid c now \<and> IssueCert (certIssuer c) n = Inr issued \<and> InitCertLeaf issued = Inr cert'
        \<longrightarrow> GetCheckedCert now (c, n) = (Inr cert', c\<lparr>cert := cert'\<rparr>, Suc n))
   \<and> (\<not> cachedValid c now \<and> IssueCert (certIssuer c) n = Inl err
        \<longrightarrow> GetCheckedCert now (c, n) = (Inl err, c, Suc n))
   \<and> (\<not> cachedValid c now \<and> IssueCert (certIssuer c) n = Inr issued \<and> InitCertLeaf issued = Inl err
        \<longrightarrow> GetCheckedCert now (c, n) = (Inl err, c, Suc n))
   \<and> (TLSCertLeaf (cert c) = Inr leaf \<and> NotAfter leaf < now \<longrightarrow> \<not> cachedValid c now)"
proof -
  have valid: "cachedValid c now \<Longrightarrow> GetCheckedCert now (c, n) = (Inr (cert c), c, n)"
    by (simp add: GetCheckedCert_def checkCert_None_iff)
  have count: "\<not> cachedValid c now \<Longrightarrow> snd (snd (GetCheckedCert now (c, n))) = Suc n"
    by (simp add: GetCheckedCert_def checkCert_None_iff split: sum.splits)
  have issued: "\<not> cachedValid c now \<Longrightarrow> IssueCert (certIssuer c) n = Inr issued \<Longrightarrow>
      InitCertLeaf issued = Inr cert' \<Longrightarrow>
      GetCheckedCert now (c, n) = (Inr cert', c\<lparr>cert := cert'\<rparr>, Suc n)"
    by (simp add: GetCheckedCert_def checkCert_None_iff)
  have failed: "\<not> cachedValid c now \<Longrightarrow> IssueCert (certIssuer c) n = Inl err \<Longrightarrow>
      GetCheckedCert now (c, n) = (Inl err, c, Suc n)"
    by (simp add: GetCheckedCert_def checkCert_None_iff)
  have noleaf: "\<not> cachedValid c now \<Longrightarrow> IssueCert (certIssuer c) n = Inr issued \<Longrightarrow>
      InitCertLeaf issued = Inl err \<Longrightarrow> GetCheckedCert now (c, n) = (Inl err, c, Suc n)"
    by (simp add: GetCheckedCert_def checkCert_None_iff)
  have expired: "TLSCertLeaf (cert c) = Inr leaf \<Longrightarrow> NotAfter leaf < now \<Longrightarrow> \<not> cachedValid c now"
    by (simp add: cachedValid_def)
  from valid count issued failed noleaf expired show ?thesis by blast
qed

lemma cachedValid_checkerA: "cachedValid checkerA t \<longleftrightarrow> 0 \<le> t \<and> t \<le> 100"
  by (simp add: cachedValid_def checkerA_def certA'_def leafA_def TLSCertLeaf_def goodIssuer_def)

lemma cachedValid_new: "\<not> cachedValid (NewCertChecker i) t"
  by (simp add: cachedValid_def NewCertChecker_def zeroCertificate_def TLSCertLeaf_def)

lemma InitCertLeaf_certA: "InitCertLeaf certA = Inr certA'"
  by (simp add: InitCertLeaf_def TLSCertLeaf_def ParseCertificate_def certA_def certA'_def)

lemma InitCertLeaf_certB: "InitCertLeaf certB = Inr certB'"
  by (simp add: InitCertLeaf_def TLSCertLeaf_def ParseCertificate_def certB_def certB'_def)

lemma InitCertLeaf_zero: "InitCertLeaf zeroCertificate = Inl (NotFound ''invalid certificate length'')"
  by (simp add: InitCertLeaf_def TLSCertLeaf_def zeroCertificate_def)

theorem GetCheckedCert_cached_or_issued_witness:
  "cachedValid checkerA 50
   \<and> GetCheckedCert 50 (checkerA, 1) = (Inr (cert checkerA), checkerA, 1)
   \<and> TLSCertLeaf (cert checkerA) = Inr leafA \<and> NotAfter leafA < 150
   \<and> \<not> cachedValid checkerA 150
   \<and> IssueCert (certIssuer checkerA) 1 = Inr certB \<and> InitCertLeaf certB = Inr certB'
   \<and> GetCheckedCert 150 (checkerA, 1) = (Inr certB', checkerA\<lparr>cert := certB'\<rparr>, Suc 1)
   \<and> \<not> cachedValid (NewCertChecker failingIssuer) 5
   \<and> IssueCert (certIssuer (NewCertChecker failingIssuer)) 0 = Inl (External ''access denied'')
   \<and> GetCheckedCert 5 (NewCertChecker failingIssuer, 0)
        = (Inl (External ''access denied''), NewCertChecker failingIssuer, Suc 0)
   \<and> \<not> cachedValid (NewCertChecker emptyIssuer) 5
   \<and> IssueCert (certIssuer (NewCertChecker emptyIssuer)) 0 = Inr zeroCertificate
   \<and> InitCertLeaf zeroCertificate = Inl (NotFound ''invalid certificate length'')
   \<and> GetCheckedCert 5 (NewCertChecker emptyIssuer, 0)
        = (Inl (NotFound ''invalid certificate length''), NewCertChecker emptyIssuer, Suc 0)"
proof -
  have v: "cachedValid checkerA 50"
    by (simp add: cachedValid_checkerA)
  have l: "TLSCertLeaf (cert checkerA) = Inr leafA" "NotAfter leafA < 150"
    by (simp_all add: checkerA_def certA'_def TLSCertLeaf_def leafA_def)
  have i: "IssueCert (certIssuer checkerA) 1 = Inr certB"
    by (simp add: checkerA_def goodIssuer_def)
  have f: "IssueCert (certIssuer (NewCertChecker failingIssuer)) 0 = Inl (External ''access denied'')"
    by (simp add: NewCertChecker_def failingIssuer_def)
  have e: "IssueCert (certIssuer (NewCertChecker emptyIssuer)) 0 = Inr zeroCertificate"
    by (simp add: NewCertChecker_def emptyIssuer_def)
  note t1 = GetCheckedCert_cached_or_issued [of checkerA 50 1]
  note t2 = GetCheckedCert_cached_or_issued [of checkerA 150 1 certB certB' _ leafA]
  note t3 = GetCheckedCert_cached_or_issued
    [of "NewCertChecker failingIssuer" 5 0 _ _ "External ''access denied''"]
  note t4 = GetCheckedCert_cached_or_issued
    [of "NewCertChecker emptyIssuer" 5 0 zeroCertificate _ "NotFound ''invalid certificate length''"]
  have x: "\<not> cachedValid checkerA 150"
    using t2 l by blast
  have r1: "GetCheckedCert 50 (checkerA, 1) = (Inr (cert checkerA), checkerA, 1)"
    using t1 v by blast
  have r2: "GetCheckedCert 150 (checkerA, 1) = (Inr certB', checkerA\<lparr>cert := certB'\<rparr>, Suc 1)"
    using t2 x i InitCertLeaf_certB by blast
  have r3: "GetCheckedCert 5 (NewCertChecker failingIssuer, 0)
        = (Inl (External ''access denied''), NewCertChecker failingIssuer, Suc 0)"
    using t3 f cachedValid_new by blast
  have r4: "GetCheckedCert 5 (NewCertChecker emptyIssuer, 0)
        = (Inl (NotFound ''invalid certificate length''), NewCertChecker emptyIssuer, Suc 0)"
    using t4 e InitCertLeaf_zero cachedValid_new by blast
  show ?thesis
    using v l x i e f r1 r2 r3 r4 InitCertLeaf_certB InitCertLeaf_zero cachedValid_new by blast
qed

text \<open>
  C1 as stated promises a stored and returned certificate whenever the cache cannot be
  used. With an issuer that fails, and with one that returns the zero certificate and no
  error, the call returns an error and stores nothing.
\<close>

theorem GetCheckedCert_stores_result_counterexample:
  "\<not> cachedValid (NewCertChecker failingIssuer) 5
   \<and> fst (GetCheckedCert 5 (NewCertChecker failingIssuer, 0)) = Inl (External ''access denied'')
   \<and> cert (fst (snd (GetCheckedCert 5 (NewCertChecker failingIssuer, 0)))) = zeroCertificate
   \<and> \<not> cachedValid (NewCertChecker emptyIssuer) 5
   \<and> IssueCert emptyIssuer 0 = Inr zeroCertificate
   \<and> fst (GetCheckedCert 5 (NewCertChecker emptyIssuer, 0)) = Inl (NotFound ''invalid certificate length'')"
  by (simp add: cachedValid_new GetCheckedCert_def checkCert_new InitCertLeaf_zero)
    (simp add: NewCertChecker_def failingIssuer_def emptyIssuer_def InitCertLeaf_zero)

text \<open>
  C6 (amended): take \<open>N = Suc (length ts)\<close> calls on one checker, serialised by
  \<open>certMu\<close>, the first of which finds no valid cached certificate. When the issuance
  of that first call succeeds and the certificate it stores is valid at the clock readings
  of the other calls, \<open>IssueCert\<close> is invoked exactly once and all \<open>N\<close> callers
  get that one certificate.
\<close>

theorem GetCheckedCerts_coalesced:
  assumes "\<not> cachedValid c t"
    and "IssueCert (certIssuer c) n = Inr issued"
    and "InitCertLeaf issued = Inr cert'"
    and "\<forall>t' \<in> set ts. cachedValid (c\<lparr>cert := cert'\<rparr>) t'"
  shows "GetCheckedCerts (t # ts) (c, n)
         = (replicate (Suc (length ts)) (Inr cert'), c\<lparr>cert := cert'\<rparr>, Suc n)"
proof -
  have first: "GetCheckedCert t (c, n) = (Inr cert', c\<lparr>cert := cert'\<rparr>, Suc n)"
    using assms(1-3) by (simp add: GetCheckedCert_def checkCert_None_iff)
  have "\<forall>t' \<in> set ts. checkCert (c\<lparr>cert := cert'\<rparr>) t' = None"
    using assms(4) by (simp add: checkCert_None_iff)
  then have rest: "GetCheckedCerts ts (c\<lparr>cert := cert'\<rparr>, Suc n)
      = (replicate (length ts) (Inr (cert (c\<lparr>cert := cert'\<rparr>))), c\<lparr>cert := cert'\<rparr>, Suc n)"
    by (rule GetCheckedCerts_all_cached)
  from first rest show ?thesis by simp
qed

theorem GetCheckedCerts_coalesced_witness:
  "\<not> cachedValid (NewCertChecker goodIssuer) 10
   \<and> IssueCert (certIssuer (NewCertChecker goodIssuer)) 0 = Inr certA
   \<and> InitCertLeaf certA = Inr certA'
   \<and> cachedValid (NewCertChecker goodIssuer\<lparr>cert := certA'\<rparr>) 20
   \<and> cachedValid (NewCertChecker goodIssuer\<lparr>cert := certA'\<rparr>) 30
   \<and> GetCheckedCerts [10, 20, 30] (NewCertChecker goodIssuer, 0)
       = ([Inr certA', Inr certA', Inr certA'], NewCertChecker goodIssuer\<lparr>cert := certA'\<rparr>, Suc 0)"
proof -
  have eq: "NewCertChecker goodIssuer\<lparr>cert := certA'\<rparr> = checkerA"
    by (simp add: NewCertChecker_def checkerA_def)
  have i: "IssueCert (certIssuer (NewCertChecker goodIssuer)) 0 = Inr certA"
    by (simp add: NewCertChecker_def goodIssuer_def)
  have v: "\<forall>t' \<in> set [20, 30]. cachedValid (NewCertChecker goodIssuer\<lparr>cert := certA'\<rparr>) t'"
    by (simp add: eq cachedValid_checkerA)
  have "GetCheckedCerts (10 # [20, 30]) (NewCertChecker goodIssuer, 0)
      = (replicate (Suc (length [20::int, 30])) (Inr certA'),
         NewCertChecker goodIssuer\<lparr>cert := certA'\<rparr>, Suc 0)"
    using cachedValid_new i InitCertLeaf_certA v by (rule GetCheckedCerts_coalesced)
  then show ?thesis
    using i v by (simp add: cachedValid_new InitCertLeaf_certA numeral_2_eq_2)
qed

text \<open>
  C6 as stated fails when the issuance fails: the error is not shared, each of two
  serialised callers invokes \<open>IssueCert\<close> itself, twice in all.
\<close>

theorem GetCheckedCerts_coalesced_counterexample:
  "\<not> cachedValid (NewCertChecker failingIssuer) 5
   \<and> GetCheckedCerts [5, 5] (NewCertChecker failingIssuer, 0)
       = ([Inl (External ''access denied''), Inl (External ''access denied'')],
          NewCertChecker failingIssuer, 2)"
proof -
  have i: "IssueCert (certIssuer (NewCertChecker failingIssuer)) k = Inl (External ''access denied'')" for k
    by (simp add: NewCertChecker_def failingIssuer_def)
  have "GetCheckedCert 5 (NewCertChecker failingIssuer, k)
      = (Inl (External ''access denied''), NewCertChecker failingIssuer, Suc k)" for k
    by (simp add: GetCheckedCert_def checkCert_new i)
  then show ?thesis
    by (simp add: cachedValid_new numeral_2_eq_2)
qed

section \<open>Properties of ProcessManager\<close>



lemma taskReturns_ctxDone: "ctxDone pm \<Longrightarrow> ctxDone (taskReturns i e pm)"
  by (simp add: taskReturns_def split: option.splits)







lemma returns_ctxDone: "ctxDone pm \<Longrightarrow> ctxDone (foldl (\<lambda>p (i, e). taskReturns i e p) pm rs)"
  by (induction rs arbitrary: pm) (auto simp: taskReturns_ctxDone)








lemma Wait_Some:
  "Wait pm rs = Some (r, pm') \<Longrightarrow>
   r = g_err (foldl (\<lambda>p (i, e). taskReturns i e p) pm rs) \<and> allReturned pm' \<and> ctxDone pm'"
  by (auto simp: Wait_def Let_def allReturned_def split: if_splits)







lemma taskReturns_allReturned: "allReturned pm \<Longrightarrow> taskReturns i e pm = pm"
  by (auto simp: allReturned_def taskReturns_def list_all_length)

lemma returns_allReturned:
  "allReturned pm \<Longrightarrow> foldl (\<lambda>p (i, e). taskReturns i e p) pm rs = pm"
  by (induction rs) (auto simp: taskReturns_allReturned)

lemma Close_again:
  assumes "Close pm rs = Some (r, pm')"
  shows "allReturned pm' \<and> Close pm' rs' = Some (r, pm')"
proof -
  from assms have w: "Wait (cancel pm) rs = Some (r, pm')" by (simp add: Close_def)
  from Wait_Some [OF w] have a: "allReturned pm'" and c: "ctxDone pm'" by simp_all
  from w have r: "r = g_err pm'"
    by (auto simp: Wait_def Let_def split: if_splits)
  from c have same: "cancel pm' = pm'" by (simp add: cancel_def)
  have "Wait pm' rs' = Some (g_err pm', pm')"
    using a c by (simp add: Wait_def returns_allReturned)
  with a r same show ?thesis by (simp add: Close_def)
qed

lemma Close_blocked:
  "\<not> allReturned (foldl (\<lambda>p (i, e). taskReturns i e p) (cancel pm) rs) \<Longrightarrow> Close pm rs = None"
  by (simp add: Close_def Wait_def)

section \<open>Properties of SetupAndRun\<close>


lemma closeOnFailure_closed:
  assumes "closeOnFailure env e pm = Some (Inl (e', opm))"
  shows "e' = e \<and> (\<exists>pm'. opm = Some pm' \<and> ctxDone pm' \<and> allReturned pm')"
proof -
  from assms obtain r pm' where c: "Close pm (task_returns env) = Some (r, pm')"
    and o: "opm = Some pm'" and e: "e' = e"
    by (auto simp: closeOnFailure_def split: option.splits)
  from c have "Wait (cancel pm) (task_returns env) = Some (r, pm')" by (simp add: Close_def)
  from Wait_Some [OF this] o e show ?thesis by simp
qed

lemma closeOnFailure_not_Inr: "closeOnFailure env e pm \<noteq> Some (Inr pm')"
  by (simp add: closeOnFailure_def split: option.splits)

lemma SetupAndRun_cases:
  "SetupAndRun env = Some (Inl (e, opm)) \<Longrightarrow>
   (opm = None \<and> IPv6Prefix_result env = Inl e) \<or> (\<exists>pm. closeOnFailure env e pm = Some (Inl (e, opm)))"
  unfolding SetupAndRun_def Let_def
  by (auto split: sum.splits setup_select.splits option.splits bool.splits
      dest: closeOnFailure_closed)

text \<open>
  C10: whenever \<open>SetupAndRun\<close> returns an error after it has created its process
  manager (a failure to create the socket, a cancelled context during setup, a failure
  of the admin subcommand, a missing TUN device, a failure to build the network stack),
  the manager has been closed before the return: its context is cancelled and every task
  registered on it has returned. The one error return that closes nothing is the failure
  of \<open>IPv6Prefix\<close>, before any manager exists. On success the caller gets the manager
  with its three tasks running.
\<close>

theorem SetupAndRun_error_closes:
  "(SetupAndRun env = Some (Inl (e, Some pm)) \<longrightarrow> ctxDone pm \<and> allReturned pm)
   \<and> (SetupAndRun env = Some (Inl (e, None)) \<longrightarrow> IPv6Prefix_result env = Inl e)
   \<and> (SetupAndRun env = Some (Inr pm') \<longrightarrow>
        pm' = \<lparr>tasks = [Running, Running, Running], g_err = None, ctxDone = False\<rparr>)"
proof -
  have a: "ctxDone pm \<and> allReturned pm" if "SetupAndRun env = Some (Inl (e, Some pm))"
    using SetupAndRun_cases [OF that] closeOnFailure_closed by fastforce
  have b: "IPv6Prefix_result env = Inl e" if "SetupAndRun env = Some (Inl (e, None))"
    using SetupAndRun_cases [OF that] closeOnFailure_closed by fastforce
  have c: "pm' = \<lparr>tasks = [Running, Running, Running], g_err = None, ctxDone = False\<rparr>"
    if "SetupAndRun env = Some (Inr pm')"
    using that unfolding SetupAndRun_def Let_def
    by (auto simp: closeOnFailure_not_Inr newProcessManager_def AddBackgroundTask_def
        split: sum.splits setup_select.splits option.splits bool.splits)
  from a b c show ?thesis by blast
qed

theorem SetupAndRun_error_closes_witness:
  "SetupAndRun env_canceled
     = Some (Inl (ContextCanceled,
         Some \<lparr>tasks = [Returned None, Returned (Some ContextCanceled)],
               g_err = Some ContextCanceled, ctxDone = True\<rparr>))
   \<and> ctxDone \<lparr>tasks = [Returned None, Returned (Some ContextCanceled)],
               g_err = Some ContextCanceled, ctxDone = True\<rparr>
   \<and> allReturned \<lparr>tasks = [Returned None, Returned (Some ContextCanceled)],
               g_err = Some ContextCanceled, ctxDone = True\<rparr>
   \<and> SetupAndRun env_admin_failed
     = Some (Inl (External ''osascript: prompt closed'',
         Some \<lparr>tasks = [Returned None, Returned (Some (External ''osascript: prompt closed''))],
               g_err = Some (External ''osascript: prompt closed''), ctxDone = True\<rparr>))
   \<and> allReturned \<lparr>tasks = [Returned None, Returned (Some (External ''osascript: prompt closed''))],
               g_err = Some (External ''osascript: prompt closed''), ctxDone = True\<rparr>
   \<and> SetupAndRun env_stack_failed
     = Some (Inl (External ''stack'',
         Some \<lparr>tasks = [Returned None, Returned (Some ContextCanceled)],
               g_err = Some ContextCanceled, ctxDone = True\<rparr>))
   \<and> SetupAndRun (env_ok\<lparr>IPv6Prefix_result := Inl (External ''no prefix'')\<rparr>)
     = Some (Inl (External ''no prefix'', None))
   \<and> IPv6Prefix_result (env_ok\<lparr>IPv6Prefix_result := Inl (External ''no prefix'')\<rparr>)
     = Inl (External ''no prefix'')
   \<and> SetupAndRun env_ok
     = Some (Inr \<lparr>tasks = [Running, Running, Running], g_err = None, ctxDone = False\<rparr>)"
proof -
  let ?pmC = "\<lparr>tasks = [Returned None, Returned (Some ContextCanceled)],
               g_err = Some ContextCanceled, ctxDone = True\<rparr>"
  let ?pmA = "\<lparr>tasks = [Returned None, Returned (Some (External ''osascript: prompt closed''))],
               g_err = Some (External ''osascript: prompt closed''), ctxDone = True\<rparr>"
  have c: "SetupAndRun env_canceled = Some (Inl (ContextCanceled, Some ?pmC))"
    by (simp add: SetupAndRun_def env_canceled_def env_ok_def closeOnFailure_def Close_def
        Wait_def cancel_def taskReturns_def allReturned_def newProcessManager_def
        AddBackgroundTask_def)
  have a: "SetupAndRun env_admin_failed
      = Some (Inl (External ''osascript: prompt closed'', Some ?pmA))"
    by (simp add: SetupAndRun_def env_admin_failed_def env_ok_def closeOnFailure_def Close_def
        Wait_def cancel_def taskReturns_def allReturned_def newProcessManager_def
        AddBackgroundTask_def)
  have s: "SetupAndRun env_stack_failed = Some (Inl (External ''stack'', Some ?pmC))"
    by (simp add: SetupAndRun_def env_stack_failed_def env_ok_def closeOnFailure_def Close_def
        Wait_def cancel_def taskReturns_def allReturned_def newProcessManager_def
        AddBackgroundTask_def)
  have p: "SetupAndRun (env_ok\<lparr>IPv6Prefix_result := Inl (External ''no prefix'')\<rparr>)
      = Some (Inl (External ''no prefix'', None))"
    by (simp add: SetupAndRun_def)
  have k: "\<exists>pm'. SetupAndRun env_ok = Some (Inr pm')"
    by (simp add: SetupAndRun_def env_ok_def)
  from SetupAndRun_error_closes [of env_canceled ContextCanceled ?pmC] c
  have r1: "ctxDone ?pmC \<and> allReturned ?pmC" by blast
  from SetupAndRun_error_closes [of env_admin_failed "External ''osascript: prompt closed''" ?pmA] a
  have r2: "allReturned ?pmA" by blast
  from SetupAndRun_error_closes
    [of "env_ok\<lparr>IPv6Prefix_result := Inl (External ''no prefix'')\<rparr>" "External ''no prefix''"] p
  have r3: "IPv6Prefix_result (env_ok\<lparr>IPv6Prefix_result := Inl (External ''no prefix'')\<rparr>)
      = Inl (External ''no prefix'')" by blast
  from k SetupAndRun_error_closes [of env_ok]
  have r4: "SetupAndRun env_ok
      = Some (Inr \<lparr>tasks = [Running, Running, Running], g_err = None, ctxDone = False\<rparr>)"
    by blast
  from c a s p r1 r2 r3 r4 show ?thesis by blast
qed

section \<open>Properties of Service\<close>

lemma runReturned_phase: "phase (runReturned e g) \<noteq> InRun"
  by (simp add: runReturned_def)

lemma stopLocked_running:
  assumes "status s = statusRunning" "instances s \<noteq> []"
  shows "instances (snd (stopLocked runErr s)) \<noteq> []
     \<and> phase (last (instances (snd (stopLocked runErr s)))) \<noteq> InRun"
proof -
  from assms(2) obtain g older where rv: "rev (instances s) = g # older"
    by (cases "rev (instances s)") auto
  show ?thesis
    using assms(1) rv runReturned_phase [of runErr g]
    by (auto simp: stopLocked_def Let_def split: list.splits)
qed

lemma Close_Service_status: "status (snd (Close_Service runErr s)) = statusClosed"
  by (simp add: Close_Service_def split: prod.splits)

lemma Close_Service_instances:
  "instances (snd (Close_Service runErr s)) = instances (snd (stopLocked runErr s))"
  by (simp add: Close_Service_def split: prod.splits)

lemma Close_Service_closed:
  "status s = statusClosed \<Longrightarrow>
   Close_Service runErr s = (Some (CompareFailed ''VNet service has been closed''), s)"
  by (simp add: Close_Service_def stopLocked_def)

text \<open>
  C4 (amended): \<open>ProcessManager.Close\<close> returns only when every registered task has
  returned (it is blocked as long as one is running), and a second \<open>Close\<close> after a
  completed first one returns the same result at once and changes nothing.
  \<open>Service.Close\<close> leaves the status closed and, called on a running service, returns
  only when the goroutine running VNet is past \<open>vnet.Run\<close>. A second
  \<open>Service.Close\<close> right after the first does not repeat the first call's result:
  it returns the error \<open>CompareFailed\<close> "VNet service has been closed" and leaves the
  service closed.
\<close>

theorem Close_blocks_and_repeats:
  "(Close pm rs = Some (r, pm') \<longrightarrow> allReturned pm' \<and> Close pm' rs' = Some (r, pm'))
   \<and> (\<not> allReturned (foldl (\<lambda>p (i, e). taskReturns i e p) (cancel pm) rs) \<longrightarrow> Close pm rs = None)
   \<and> status (snd (Close_Service runErr s)) = statusClosed
   \<and> (status s = statusRunning \<and> instances s \<noteq> []
        \<longrightarrow> phase (last (instances (snd (Close_Service runErr s)))) \<noteq> InRun)
   \<and> Close_Service runErr' (snd (Close_Service runErr s))
        = (Some (CompareFailed ''VNet service has been closed''), snd (Close_Service runErr s))"
  using Close_again [of pm rs r pm' rs'] Close_blocked [of pm rs]
    stopLocked_running [of s runErr] Close_Service_status [of runErr s]
    Close_Service_closed [of "snd (Close_Service runErr s)" runErr']
  by (simp add: Close_Service_instances)

theorem Close_blocks_and_repeats_witness:
  "Close \<lparr>tasks = [Running], g_err = None, ctxDone = False\<rparr> [(0, None)]
     = Some (None, \<lparr>tasks = [Returned None], g_err = None, ctxDone = True\<rparr>)
   \<and> allReturned \<lparr>tasks = [Returned None], g_err = None, ctxDone = True\<rparr>
   \<and> Close \<lparr>tasks = [Returned None], g_err = None, ctxDone = True\<rparr> []
     = Some (None, \<lparr>tasks = [Returned None], g_err = None, ctxDone = True\<rparr>)
   \<and> \<not> allReturned (foldl (\<lambda>p (i, e). taskReturns i e p)
          (cancel \<lparr>tasks = [Running], g_err = None, ctxDone = False\<rparr>) [])
   \<and> Close \<lparr>tasks = [Running], g_err = None, ctxDone = False\<rparr> [] = None
   \<and> status \<lparr>status = statusRunning, instances = [\<lparr>phase = InRun, errC = []\<rparr>]\<rparr> = statusRunning
   \<and> instances \<lparr>status = statusRunning, instances = [\<lparr>phase = InRun, errC = []\<rparr>]\<rparr> \<noteq> []
   \<and> phase (last (instances (snd (Close_Service (Some ContextCanceled)
          \<lparr>status = statusRunning, instances = [\<lparr>phase = InRun, errC = []\<rparr>]\<rparr>)))) \<noteq> InRun
   \<and> status (snd (Close_Service (Some ContextCanceled)
          \<lparr>status = statusRunning, instances = [\<lparr>phase = InRun, errC = []\<rparr>]\<rparr>)) = statusClosed
   \<and> Close_Service None (snd (Close_Service (Some ContextCanceled)
          \<lparr>status = statusRunning, instances = [\<lparr>phase = InRun, errC = []\<rparr>]\<rparr>))
       = (Some (CompareFailed ''VNet service has been closed''),
          snd (Close_Service (Some ContextCanceled)
            \<lparr>status = statusRunning, instances = [\<lparr>phase = InRun, errC = []\<rparr>]\<rparr>))"
proof -
  let ?pm = "\<lparr>tasks = [Running], g_err = None, ctxDone = False\<rparr>"
  let ?fin = "\<lparr>tasks = [Returned None], g_err = None, ctxDone = True\<rparr>"
  let ?s = "\<lparr>status = statusRunning, instances = [\<lparr>phase = InRun, errC = []\<rparr>]\<rparr>"
  have c: "Close ?pm [(0, None)] = Some (None, ?fin)"
    by (simp add: Close_def cancel_def Wait_def taskReturns_def allReturned_def)
  have b: "\<not> allReturned (foldl (\<lambda>p (i, e). taskReturns i e p) (cancel ?pm) [])"
    by (simp add: cancel_def allReturned_def)
  have s: "status ?s = statusRunning" "instances ?s \<noteq> []"
    by simp_all
  note t1 = Close_blocks_and_repeats [of ?pm "[(0, None)]" None ?fin "[]" "Some ContextCanceled" ?s None]
  note t2 = Close_blocks_and_repeats [of ?pm "[]" None ?fin "[]" "Some ContextCanceled" ?s None]
  from t1 c have r1: "allReturned ?fin \<and> Close ?fin [] = Some (None, ?fin)"
    by blast
  from t2 b have r2: "Close ?pm [] = None"
    by blast
  from t1 s have r3: "phase (last (instances (snd (Close_Service (Some ContextCanceled) ?s)))) \<noteq> InRun"
    by blast
  from t1 have r4: "status (snd (Close_Service (Some ContextCanceled) ?s)) = statusClosed"
    by blast
  from t1 have r5: "Close_Service None (snd (Close_Service (Some ContextCanceled) ?s))
       = (Some (CompareFailed ''VNet service has been closed''),
          snd (Close_Service (Some ContextCanceled) ?s))"
    by blast
  from c b s r1 r2 r3 r4 r5 show ?thesis by blast
qed

text \<open>
  C4 as stated fails for the service: on a service that was never started the first
  \<open>Close\<close> returns nil and the second one returns an error.
\<close>

theorem Close_Service_twice_counterexample:
  "Close_Service None New = (None, \<lparr>status = statusClosed, instances = []\<rparr>)
   \<and> Close_Service None \<lparr>status = statusClosed, instances = []\<rparr>
       = (Some (CompareFailed ''VNet service has been closed''),
          \<lparr>status = statusClosed, instances = []\<rparr>)"
  by (simp add: Close_Service_def stopLocked_def New_def)

lemma Start_running: "status s = statusRunning \<Longrightarrow> Start setup s = (None, s)"
  by (simp add: Start_def)

lemma Start_closed:
  "status s = statusClosed \<Longrightarrow>
   Start setup s = (Some (CompareFailed ''VNet service has been closed''), s)"
  by (simp add: Start_def)

lemma Stop_not_running: "status s = statusNotRunning \<Longrightarrow> Stop None runErr s = (None, s)"
  by (simp add: Stop_def stopLocked_def)

text \<open>
  C9 at its failing input: a service is started, then closed; the goroutine of the
  first \<open>Start\<close>, which waited for \<open>s.mu\<close> during \<open>Close\<close>, runs its last
  statements; a second \<open>Start\<close> follows. The closed status is overwritten by
  \<open>statusNotRunning\<close>, and the second \<open>Start\<close> succeeds and launches VNet again.
\<close>

theorem Service_started_after_Close:
  "foldl service_step New [StartRPC None, CloseCall (Some ContextCanceled)]
     = \<lparr>status = statusClosed, instances = [\<lparr>phase = AtLock, errC = []\<rparr>]\<rparr>
   \<and> foldl service_step New [StartRPC None, CloseCall (Some ContextCanceled), GoroutineExit 0]
     = \<lparr>status = statusNotRunning, instances = [\<lparr>phase = Finished, errC = []\<rparr>]\<rparr>
   \<and> Start None (foldl service_step New
        [StartRPC None, CloseCall (Some ContextCanceled), GoroutineExit 0])
     = (None, \<lparr>status = statusRunning,
               instances = [\<lparr>phase = Finished, errC = []\<rparr>, \<lparr>phase = InRun, errC = []\<rparr>]\<rparr>)"
  by (simp add: New_def Start_def Close_Service_def stopLocked_def runReturned_def
      goroutineExit_def)

section \<open>Properties of AdminSubcommand and the OS configuration loop\<close>


lemma gstep_Exited: "goroutine st = Exited v \<Longrightarrow> gstep env ev st = st"
  by (cases ev) simp_all

lemma applyZones_ok:
  assumes "ListProfileNames env (profileListings h) = Inr zones"
    and "configureOS_result env (length (configured h)) (cfg\<lparr>dnsZones := zones\<rparr>) = None"
  shows "applyZones env cfg h =
     (InLoop (cfg\<lparr>dnsZones := zones\<rparr>),
      \<lparr>profileListings = Suc (profileListings h),
       configured = configured h @ [cfg\<lparr>dnsZones := zones\<rparr>]\<rparr>)"
  using assms by (simp add: applyZones_def dnsZones_call_def configureOS_def)

lemma applyZones_list_error:
  assumes "ListProfileNames env (profileListings h) = Inl e"
  shows "applyZones env cfg h =
     (Exited (Some (WrapMsg (WrapMsg e ''listing profiles'') ''getting DNS zones'')),
      h\<lparr>profileListings := Suc (profileListings h)\<rparr>)"
  using assms by (simp add: applyZones_def dnsZones_call_def)

lemma applyZones_configure_error:
  assumes "ListProfileNames env (profileListings h) = Inr zones"
    and "configureOS_result env (length (configured h)) (cfg\<lparr>dnsZones := zones\<rparr>) = Some e"
  shows "fst (applyZones env cfg h) = Exited (Some (WrapMsg e ''configuring OS''))"
  using assms by (simp add: applyZones_def dnsZones_call_def configureOS_def)

text \<open>
  C2 (amended): while the goroutine is in its loop, every tick of its ticker lists the
  DNS zones again and configures the host again with them; when both succeed the
  goroutine stays in the loop with the new zones. An error of \<open>dnsZones\<close> or of
  \<open>configureOS\<close> on a tick is not retried: the goroutine sends the error on
  \<open>errCh\<close> and is gone, so that later ticks do nothing, and \<open>AdminSubcommand\<close>,
  waiting in its loop, returns that error as soon as it takes \<open>errCh\<close>.
\<close>

theorem osConfig_loop_tick:
  assumes "goroutine st = InLoop cfg"
  shows
   "(ListProfileNames env (profileListings (host st)) = Inr zones
      \<and> configureOS_result env (length (configured (host st))) (cfg\<lparr>dnsZones := zones\<rparr>) = None
      \<longrightarrow> gstep env GTick st =
           st\<lparr>goroutine := InLoop (cfg\<lparr>dnsZones := zones\<rparr>),
              host := \<lparr>profileListings = Suc (profileListings (host st)),
                       configured = configured (host st) @ [cfg\<lparr>dnsZones := zones\<rparr>]\<rparr>\<rparr>)
    \<and> (ListProfileNames env (profileListings (host st)) = Inl e
      \<longrightarrow> goroutine (gstep env GTick st)
           = Exited (Some (WrapMsg (WrapMsg e ''listing profiles'') ''getting DNS zones'')))
    \<and> (ListProfileNames env (profileListings (host st)) = Inr zones
      \<and> configureOS_result env (length (configured (host st))) (cfg\<lparr>dnsZones := zones\<rparr>) = Some e
      \<longrightarrow> goroutine (gstep env GTick st) = Exited (Some (WrapMsg e ''configuring OS'')))
    \<and> (goroutine (gstep env GTick st) = Exited v
      \<longrightarrow> gstep env ev (gstep env GTick st) = gstep env GTick st
        \<and> waitLoop env (AErr # evs) (gstep env GTick st)
            = Some (v, gstep env GTick st\<lparr>cancelled := True\<rparr>))"
proof -
  have ok: "gstep env GTick st =
           st\<lparr>goroutine := InLoop (cfg\<lparr>dnsZones := zones\<rparr>),
              host := \<lparr>profileListings = Suc (profileListings (host st)),
                       configured = configured (host st) @ [cfg\<lparr>dnsZones := zones\<rparr>]\<rparr>\<rparr>"
    if "ListProfileNames env (profileListings (host st)) = Inr zones"
      and "configureOS_result env (length (configured (host st))) (cfg\<lparr>dnsZones := zones\<rparr>) = None"
    using assms applyZones_ok [OF that] by simp
  have le: "goroutine (gstep env GTick st)
           = Exited (Some (WrapMsg (WrapMsg e ''listing profiles'') ''getting DNS zones''))"
    if "ListProfileNames env (profileListings (host st)) = Inl e"
    using assms applyZones_list_error [OF that] by simp
  have ce: "goroutine (gstep env GTick st) = Exited (Some (WrapMsg e ''configuring OS''))"
    if "ListProfileNames env (profileListings (host st)) = Inr zones"
      and "configureOS_result env (length (configured (host st))) (cfg\<lparr>dnsZones := zones\<rparr>) = Some e"
    using assms applyZones_configure_error [OF that]
    by (cases "applyZones env cfg (host st)") simp
  have ex: "gstep env ev (gstep env GTick st) = gstep env GTick st
        \<and> waitLoop env (AErr # evs) (gstep env GTick st)
            = Some (v, gstep env GTick st\<lparr>cancelled := True\<rparr>)"
    if "goroutine (gstep env GTick st) = Exited v"
    using that gstep_Exited [OF that] by simp
  from ok le ce ex show ?thesis by blast
qed

lemma st1_fields:
  "goroutine st1 = InLoop cfg1" "profileListings (host st1) = 1" "configured (host st1) = [cfg1]"
  "cfg1\<lparr>dnsZones := [''proxy.example.com'']\<rparr> = cfg1"
  by (simp_all add: st1_def cfg1_def)

theorem osConfig_loop_tick_witness:
  "goroutine st1 = InLoop cfg1
   \<and> ListProfileNames os_ok (profileListings (host st1)) = Inr [''proxy.example.com'']
   \<and> configureOS_result os_ok (length (configured (host st1))) cfg1 = None
   \<and> gstep os_ok GTick st1
       = \<lparr>goroutine = InLoop cfg1, host = \<lparr>profileListings = 2, configured = [cfg1, cfg1]\<rparr>,
          cancelled = False\<rparr>
   \<and> ListProfileNames os_flaky (profileListings (host st1)) = Inl (External ''EIO'')
   \<and> goroutine (gstep os_flaky GTick st1)
       = Exited (Some (WrapMsg (WrapMsg (External ''EIO'') ''listing profiles'') ''getting DNS zones''))
   \<and> gstep os_flaky GTick (gstep os_flaky GTick st1) = gstep os_flaky GTick st1
   \<and> waitLoop os_flaky [AErr] (gstep os_flaky GTick st1)
       = Some (Some (WrapMsg (WrapMsg (External ''EIO'') ''listing profiles'') ''getting DNS zones''),
               gstep os_flaky GTick st1\<lparr>cancelled := True\<rparr>)
   \<and> ListProfileNames os_cfgfail (profileListings (host st1)) = Inr [''proxy.example.com'']
   \<and> configureOS_result os_cfgfail (length (configured (host st1))) cfg1 = Some (External ''route'')
   \<and> goroutine (gstep os_cfgfail GTick st1) = Exited (Some (WrapMsg (External ''route'') ''configuring OS''))"
proof -
  note f = st1_fields
  have a1: "ListProfileNames os_ok (profileListings (host st1)) = Inr [''proxy.example.com'']"
    and a2: "configureOS_result os_ok (length (configured (host st1))) cfg1 = None"
    by (simp_all add: os_ok_def)
  have b1: "ListProfileNames os_flaky (profileListings (host st1)) = Inl (External ''EIO'')"
    by (simp add: os_flaky_def f)
  have c1: "ListProfileNames os_cfgfail (profileListings (host st1)) = Inr [''proxy.example.com'']"
    and c2: "configureOS_result os_cfgfail (length (configured (host st1))) cfg1 = Some (External ''route'')"
    by (simp_all add: os_cfgfail_def f)
  note t1 = osConfig_loop_tick [OF f(1), of os_ok "[''proxy.example.com'']"]
  note t2 = osConfig_loop_tick [OF f(1), of os_flaky _ "External ''EIO''"
      "Some (WrapMsg (WrapMsg (External ''EIO'') ''listing profiles'') ''getting DNS zones'')"
      GTick "[]"]
  note t3 = osConfig_loop_tick [OF f(1), of os_cfgfail "[''proxy.example.com'']" "External ''route''"]
  from t1 a1 a2 have "gstep os_ok GTick st1 =
      st1\<lparr>goroutine := InLoop cfg1,
          host := \<lparr>profileListings = Suc (profileListings (host st1)),
                   configured = configured (host st1) @ [cfg1]\<rparr>\<rparr>"
    by (simp add: f(4))
  then have r1: "gstep os_ok GTick st1
       = \<lparr>goroutine = InLoop cfg1, host = \<lparr>profileListings = 2, configured = [cfg1, cfg1]\<rparr>,
          cancelled = False\<rparr>"
    by (simp add: st1_def)
  from t2 b1 have r2: "goroutine (gstep os_flaky GTick st1)
       = Exited (Some (WrapMsg (WrapMsg (External ''EIO'') ''listing profiles'') ''getting DNS zones''))"
    by blast
  with t2 have r3: "gstep os_flaky GTick (gstep os_flaky GTick st1) = gstep os_flaky GTick st1
     \<and> waitLoop os_flaky [AErr] (gstep os_flaky GTick st1)
       = Some (Some (WrapMsg (WrapMsg (External ''EIO'') ''listing profiles'') ''getting DNS zones''),
               gstep os_flaky GTick st1\<lparr>cancelled := True\<rparr>)"
    by blast
  from t3 c1 c2 have r4: "goroutine (gstep os_cfgfail GTick st1)
      = Exited (Some (WrapMsg (External ''route'') ''configuring OS''))"
    by (simp add: f(4))
  from f(1) a1 a2 b1 c1 c2 r1 r2 r3 r4 show ?thesis by blast
qed

text \<open>
  C2 as stated fails: the second listing of the profiles fails on the first tick of the
  loop. The goroutine is gone after it, the next tick lists nothing (two listings in all,
  though the third would have succeeded), and \<open>AdminSubcommand\<close> returns the error.
\<close>

theorem osConfig_loop_retry_counterexample:
  "AdminSubcommand (admin_ok os_flaky) ''fd00::'' ''fd00::2'' [ATick True, GInit, GTick, GTick, AErr] host0
     = Some (Some (WrapMsg (WrapMsg (External ''EIO'') ''listing profiles'') ''getting DNS zones''),
         \<lparr>goroutine =
            Exited (Some (WrapMsg (WrapMsg (External ''EIO'') ''listing profiles'') ''getting DNS zones'')),
          host = \<lparr>profileListings = 2, configured = [cfg1]\<rparr>, cancelled = True\<rparr>)
   \<and> ListProfileNames os_flaky 2 = Inr [''proxy.example.com'']"
  by (simp add: AdminSubcommand_def createTUNDevice_def admin_ok_def afterTun_def os_flaky_def
      host0_def cfg1_def applyZones_def dnsZones_call_def configureOS_def)

lemma gstep_cancelled: "cancelled (gstep env ev st) = cancelled st"
  by (cases ev) (simp_all split: os_goroutine.splits prod.splits)

lemma gstep_not_Spawned:
  "\<forall>c. goroutine st \<noteq> Spawned c \<Longrightarrow> goroutine (gstep env ev st) \<noteq> Spawned c'"
  by (cases ev) (auto simp: applyZones_def split: os_goroutine.splits prod.splits sum.splits option.splits)

lemma awaitErrCh_Some:
  "awaitErrCh env evs st = Some (r, st') \<Longrightarrow> cancelled st \<Longrightarrow> cancelled st' \<and> goroutine st' = Exited r"
proof (induction evs arbitrary: st)
  case Nil
  then show ?case by (auto split: os_goroutine.splits)
next
  case (Cons ev evs)
  show ?case
  proof (cases "goroutine st")
    case (Exited v)
    with Cons.prems show ?thesis by simp
  next
    case (Spawned c)
    with Cons.prems have "awaitErrCh env evs (gstep env ev st) = Some (r, st')" by simp
    then show ?thesis using Cons.prems(2) by (rule Cons.IH [OF _ gstep_cancelled [THEN iffD2]])
  next
    case (InLoop c)
    with Cons.prems have "awaitErrCh env evs (gstep env ev st) = Some (r, st')" by simp
    then show ?thesis using Cons.prems(2) by (rule Cons.IH [OF _ gstep_cancelled [THEN iffD2]])
  qed
qed

lemma gstep_GDone_InLoop:
  "goroutine st = InLoop c \<Longrightarrow> cancelled st \<Longrightarrow>
   goroutine (gstep env GDone st)
     = Exited (configureOS_result env (length (configured (host st))) emptyOSConfig)"
  by (simp add: configureOS_def)

lemma awaitErrCh_returns:
  "GDone \<in> set evs \<Longrightarrow> cancelled st \<Longrightarrow> \<forall>c. goroutine st \<noteq> Spawned c \<Longrightarrow>
   awaitErrCh env evs st \<noteq> None"
proof (induction evs arbitrary: st)
  case Nil
  then show ?case by simp
next
  case (Cons ev evs)
  show ?case
  proof (cases "goroutine st")
    case (Exited v)
    then show ?thesis by simp
  next
    case (Spawned c)
    with Cons.prems(3) show ?thesis by simp
  next
    case (InLoop c)
    show ?thesis
    proof (cases "ev = GDone")
      case True
      have "goroutine (gstep env ev st)
          = Exited (configureOS_result env (length (configured (host st))) emptyOSConfig)"
        unfolding True by (rule gstep_GDone_InLoop [OF InLoop Cons.prems(2)])
      then have "awaitErrCh env evs (gstep env ev st) \<noteq> None"
        by (cases evs) simp_all
      with InLoop show ?thesis by simp
    next
      case False
      with Cons.prems(1) have "GDone \<in> set evs" by simp
      moreover have "cancelled (gstep env ev st)" using Cons.prems(2) by (simp add: gstep_cancelled)
      moreover have "\<forall>c. goroutine (gstep env ev st) \<noteq> Spawned c"
        using Cons.prems(3) gstep_not_Spawned by blast
      ultimately have "awaitErrCh env evs (gstep env ev st) \<noteq> None" by (rule Cons.IH)
      with InLoop show ?thesis by simp
    qed
  qed
qed

text \<open>
  C8: \<open>st\<close> is any state in which \<open>AdminSubcommand\<close> waits in its loop. When its
  ticker fires and \<open>os.Stat(socketPath)\<close> fails, it cancels its context and, if it
  returns, returns what the goroutine of the OS configuration loop has sent on
  \<open>errCh\<close>, that goroutine being gone. If the goroutine had sent before, this value is
  returned at once. If the goroutine is in its loop, it sees the cancelled context, sends
  the result of deconfiguring the host (\<open>configureOS\<close> of the empty configuration) and
  the subcommand returns it; and the subcommand does return once the schedule lets the
  goroutine take \<open>ctx.Done()\<close>, also when the goroutine has yet to run its first
  statements.
\<close>

theorem AdminSubcommand_socket_deleted:
  "(waitLoop env (ATick False # evs) st = Some (r, st') \<longrightarrow> cancelled st' \<and> goroutine st' = Exited r)
   \<and> (goroutine st = Exited v \<longrightarrow>
        waitLoop env (ATick False # evs) st = Some (v, st\<lparr>cancelled := True\<rparr>))
   \<and> (goroutine st = InLoop cfg \<longrightarrow>
        waitLoop env (ATick False # GDone # evs) st
          = Some (configureOS_result env (length (configured (host st))) emptyOSConfig,
                  st\<lparr>goroutine := Exited (configureOS_result env (length (configured (host st))) emptyOSConfig),
                     host := host st\<lparr>configured := configured (host st) @ [emptyOSConfig]\<rparr>,
                     cancelled := True\<rparr>))
   \<and> (goroutine st = InLoop cfg \<and> GDone \<in> set evs \<longrightarrow> waitLoop env (ATick False # evs) st \<noteq> None)
   \<and> (goroutine st = Spawned cfg \<and> GDone \<in> set evs
        \<longrightarrow> waitLoop env (ATick False # GInit # evs) st \<noteq> None)"
proof -
  have a: "cancelled st' \<and> goroutine st' = Exited r"
    if "waitLoop env (ATick False # evs) st = Some (r, st')"
    using that awaitErrCh_Some [of env evs "st\<lparr>cancelled := True\<rparr>" r st'] by simp
  have b: "waitLoop env (ATick False # evs) st = Some (v, st\<lparr>cancelled := True\<rparr>)"
    if "goroutine st = Exited v"
    using that by (cases evs) simp_all
  have c: "waitLoop env (ATick False # GDone # evs) st
          = Some (configureOS_result env (length (configured (host st))) emptyOSConfig,
                  st\<lparr>goroutine := Exited (configureOS_result env (length (configured (host st))) emptyOSConfig),
                     host := host st\<lparr>configured := configured (host st) @ [emptyOSConfig]\<rparr>,
                     cancelled := True\<rparr>)"
    if "goroutine st = InLoop cfg"
    using that by (cases evs) (simp_all add: configureOS_def)
  have d: "waitLoop env (ATick False # evs) st \<noteq> None"
    if "goroutine st = InLoop cfg" "GDone \<in> set evs"
    using that awaitErrCh_returns [of evs "st\<lparr>cancelled := True\<rparr>" env] by simp
  have e: "waitLoop env (ATick False # GInit # evs) st \<noteq> None"
    if "goroutine st = Spawned cfg" "GDone \<in> set evs"
  proof -
    let ?st = "gstep env GInit (st\<lparr>cancelled := True\<rparr>)"
    have "cancelled ?st" unfolding gstep_cancelled by simp
    moreover have "\<forall>c. goroutine ?st \<noteq> Spawned c"
      using that(1)
      by (auto simp: applyZones_def split: prod.splits sum.splits option.splits)
    ultimately have "awaitErrCh env evs ?st \<noteq> None"
      using that(2) awaitErrCh_returns by blast
    with that(1) show ?thesis by simp
  qed
  from a b c d e show ?thesis by blast
qed

theorem AdminSubcommand_socket_deleted_witness:
  "goroutine st1 = InLoop cfg1
   \<and> waitLoop os_ok [ATick False, GDone] st1
       = Some (None,
           \<lparr>goroutine = Exited None,
            host = \<lparr>profileListings = 1, configured = [cfg1, emptyOSConfig]\<rparr>, cancelled = True\<rparr>)
   \<and> cancelled \<lparr>goroutine = Exited None,
            host = \<lparr>profileListings = 1, configured = [cfg1, emptyOSConfig]\<rparr>, cancelled = True\<rparr>
   \<and> goroutine \<lparr>goroutine = Exited None,
            host = \<lparr>profileListings = 1, configured = [cfg1, emptyOSConfig]\<rparr>, cancelled = True\<rparr>
       = Exited None
   \<and> GDone \<in> set [GTick, GDone]
   \<and> waitLoop os_ok [ATick False, GTick, GDone] st1 \<noteq> None
   \<and> goroutine (st1\<lparr>goroutine := Spawned cfg1\<rparr>) = Spawned cfg1
   \<and> waitLoop os_ok [ATick False, GInit, GTick, GDone] (st1\<lparr>goroutine := Spawned cfg1\<rparr>) \<noteq> None
   \<and> goroutine (st1\<lparr>goroutine := Exited (Some (External ''route''))\<rparr>) = Exited (Some (External ''route''))
   \<and> waitLoop os_ok [ATick False] (st1\<lparr>goroutine := Exited (Some (External ''route''))\<rparr>)
       = Some (Some (External ''route''),
               st1\<lparr>goroutine := Exited (Some (External ''route'')), cancelled := True\<rparr>)"
proof -
  let ?fin = "\<lparr>goroutine = Exited None,
            host = \<lparr>profileListings = 1, configured = [cfg1, emptyOSConfig]\<rparr>, cancelled = True\<rparr>"
  let ?st2 = "st1\<lparr>goroutine := Exited (Some (External ''route''))\<rparr>"
  have g: "goroutine st1 = InLoop cfg1" by (simp add: st1_def)
  have g2: "goroutine ?st2 = Exited (Some (External ''route''))" by simp
  have m: "GDone \<in> set [GTick, GDone]" by simp
  note t1 = AdminSubcommand_socket_deleted [of os_ok "[]" st1 None ?fin _ cfg1]
  note t2 = AdminSubcommand_socket_deleted [of os_ok "[GTick, GDone]" st1 _ _ _ cfg1]
  note t3 = AdminSubcommand_socket_deleted [of os_ok "[]" ?st2 _ _ "Some (External ''route'')"]
  from t1 g have "waitLoop os_ok [ATick False, GDone] st1
      = Some (configureOS_result os_ok (length (configured (host st1))) emptyOSConfig,
              st1\<lparr>goroutine := Exited (configureOS_result os_ok (length (configured (host st1))) emptyOSConfig),
                  host := host st1\<lparr>configured := configured (host st1) @ [emptyOSConfig]\<rparr>,
                  cancelled := True\<rparr>)"
    by blast
  then have r1: "waitLoop os_ok [ATick False, GDone] st1 = Some (None, ?fin)"
    by (simp add: st1_def os_ok_def)
  from t2 g m have r2: "waitLoop os_ok [ATick False, GTick, GDone] st1 \<noteq> None"
    by blast
  from t3 g2 have r3: "waitLoop os_ok [ATick False] ?st2
      = Some (Some (External ''route''), ?st2\<lparr>cancelled := True\<rparr>)"
    by blast
  note t5 = AdminSubcommand_socket_deleted [of os_ok "[GDone]" st1 None ?fin _ cfg1]
  from t5 r1 have r4: "cancelled ?fin \<and> goroutine ?fin = Exited None" by blast
  have g3: "goroutine (st1\<lparr>goroutine := Spawned cfg1\<rparr>) = Spawned cfg1" by simp
  note t4 = AdminSubcommand_socket_deleted
    [of os_ok "[GTick, GDone]" "st1\<lparr>goroutine := Spawned cfg1\<rparr>" _ _ _ cfg1]
  from t4 g3 m have r5:
    "waitLoop os_ok [ATick False, GInit, GTick, GDone] (st1\<lparr>goroutine := Spawned cfg1\<rparr>) \<noteq> None"
    by blast
  from g g2 g3 m r1 r2 r3 r4 r5 show ?thesis by simp
qed

section \<open>Properties of AddressAllocator\<close>


lemma find_filter_same:
  "(\<And>x. P x \<Longrightarrow> Q x) \<Longrightarrow> find P (filter Q xs) = find P xs"
  by (induction xs) auto

lemma find_append_Some: "find P xs = Some y \<Longrightarrow> find P (xs @ ys) = Some y"
  by (induction xs) (auto split: if_splits)

lemma find_append_None: "find P xs = None \<Longrightarrow> find P (xs @ ys) = find P ys"
  by (induction xs) (auto split: if_splits)

lemma find_Some_set: "find P xs = Some y \<Longrightarrow> y \<in> set xs \<and> P y"
  by (induction xs) (auto split: if_splits)

lemma alloc_inv_new: "alloc_inv (NewAddressAllocator p)"
  by (simp add: alloc_inv_def NewAddressAllocator_def)

lemma alloc_inv_Allocate: "alloc_inv a \<Longrightarrow> alloc_inv (snd (Allocate now k a))"
  by (auto simp: alloc_inv_def Allocate_def nextFree_def split: option.splits
      dest!: find_Some_set)

lemma alloc_inv_Release: "alloc_inv a \<Longrightarrow> alloc_inv (Release k a)"
  by (simp add: alloc_inv_def Release_def distinct_map_filter)

lemma alloc_inv_step: "alloc_inv a \<Longrightarrow> alloc_inv (alloc_step a op)"
  by (cases op) (simp_all add: alloc_inv_Allocate alloc_inv_Release)

lemma alloc_inv_run: "alloc_inv a \<Longrightarrow> alloc_inv (alloc_run ops a)"
  unfolding alloc_run_def by (induction ops arbitrary: a) (simp_all add: alloc_inv_step)

lemma held_distinct:
  assumes "alloc_inv a" "k1 \<noteq> k2" "held a k1 = Some x1" "held a k2 = Some x2"
  shows "x1 \<noteq> x2"
proof -
  from assms(3) obtain l1 where l1: "find (\<lambda>l. appKey l = k1) (leases a) = Some l1" "address l1 = x1"
    by (auto simp: held_def leaseOf_def)
  from assms(4) obtain l2 where l2: "find (\<lambda>l. appKey l = k2) (leases a) = Some l2" "address l2 = x2"
    by (auto simp: held_def leaseOf_def)
  from find_Some_set [OF l1(1)] find_Some_set [OF l2(1)] assms(2)
  have "l1 \<in> set (leases a)" "l2 \<in> set (leases a)" "l1 \<noteq> l2" by auto
  moreover from assms(1) have "inj_on address (set (leases a))"
    by (simp add: alloc_inv_def distinct_map)
  ultimately have "address l1 \<noteq> address l2" by (auto dest: inj_onD)
  with l1(2) l2(2) show ?thesis by simp
qed

lemma Allocate_held: "fst (Allocate now k a) = Inr x \<Longrightarrow> held (snd (Allocate now k a)) k = Some x"
  by (auto simp: Allocate_def held_def leaseOf_def find_append_None split: option.splits)

lemma held_Allocate: "held a k = Some x \<Longrightarrow> fst (Allocate now k a) = Inr x"
  by (auto simp: Allocate_def held_def split: option.splits)

lemma held_step:
  assumes "held a k = Some x" "op \<noteq> ReleaseOp k"
  shows "held (alloc_step a op) k = Some x"
proof (cases op)
  case (AllocateOp now k')
  with assms(1) show ?thesis
    by (auto simp: Allocate_def held_def leaseOf_def find_append_Some split: option.splits)
next
  case (ReleaseOp k')
  with assms(2) have "k' \<noteq> k" by simp
  then have "find (\<lambda>l. appKey l = k) (filter (\<lambda>l. appKey l \<noteq> k') (leases a))
      = find (\<lambda>l. appKey l = k) (leases a)"
    by (intro find_filter_same) simp
  with assms(1) ReleaseOp show ?thesis by (simp add: held_def leaseOf_def Release_def)
qed

lemma held_run:
  "held a k = Some x \<Longrightarrow> ReleaseOp k \<notin> set ops \<Longrightarrow> held (alloc_run ops a) k = Some x"
  unfolding alloc_run_def
proof (induction ops arbitrary: a)
  case Nil
  then show ?case by simp
next
  case (Cons op ops)
  from Cons.prems have "held (alloc_step a op) k = Some x" by (intro held_step) auto
  moreover from Cons.prems have "ReleaseOp k \<notin> set ops" by simp
  ultimately show ?case using Cons.IH by simp
qed

lemma held_Release: "held (Release k a) k = None"
proof -
  have "find (\<lambda>l. appKey l = k) (filter (\<lambda>l. appKey l \<noteq> k) xs) = None" for xs :: "AddressLease list"
    by (induction xs) auto
  then show ?thesis by (simp add: held_def leaseOf_def Release_def)
qed

lemma Lookup_held:
  assumes "alloc_inv a" "held a k = Some x"
  shows "Lookup a x = Some k"
proof -
  from assms(2) obtain l where l: "find (\<lambda>l. appKey l = k) (leases a) = Some l" "address l = x"
    by (auto simp: held_def leaseOf_def)
  then have lin: "l \<in> set (leases a)" "appKey l = k" using find_Some_set by fastforce+
  from lin(1) l(2) obtain l' where l': "find (\<lambda>l. address l = x) (leases a) = Some l'"
    by (cases "find (\<lambda>l. address l = x) (leases a)") (auto simp: find_None_iff)
  from find_Some_set [OF l'] have "l' \<in> set (leases a)" "address l' = x" by auto
  moreover from assms(1) have "inj_on address (set (leases a))"
    by (simp add: alloc_inv_def distinct_map)
  ultimately have "l' = l" using lin(1) l(2) by (auto dest: inj_onD)
  with l' lin(2) show ?thesis by (simp add: Lookup_def)
qed

text \<open>
  C7: after any sequence of \<open>Allocate\<close> and \<open>Release\<close> calls on a new allocator,
  two distinct keys never hold the same address (and \<open>Lookup\<close> of a held address
  gives its one holder); an \<open>Allocate\<close> that returned an address for a key returns the
  same address again after any further calls among which the key is not released; after
  \<open>Release\<close> the key holds nothing.
\<close>

theorem Allocate_unique_and_stable:
  assumes "a = alloc_run ops (NewAddressAllocator p)"
  shows "(k1 \<noteq> k2 \<and> held a k1 = Some x1 \<and> held a k2 = Some x2 \<longrightarrow> x1 \<noteq> x2)
     \<and> (held a k = Some x \<longrightarrow> Lookup a x = Some k)
     \<and> (fst (Allocate t k a) = Inr x \<and> ReleaseOp k \<notin> set ops'
          \<longrightarrow> fst (Allocate t' k (alloc_run ops' (snd (Allocate t k a)))) = Inr x)
     \<and> held (Release k a) k = None"
proof -
  have inv: "alloc_inv a" using assms by (simp add: alloc_inv_run alloc_inv_new)
  have u: "x1 \<noteq> x2" if "k1 \<noteq> k2" "held a k1 = Some x1" "held a k2 = Some x2"
    using inv that by (rule held_distinct)
  have l: "Lookup a x = Some k" if "held a k = Some x"
    using inv that by (rule Lookup_held)
  have s: "fst (Allocate t' k (alloc_run ops' (snd (Allocate t k a)))) = Inr x"
    if "fst (Allocate t k a) = Inr x" "ReleaseOp k \<notin> set ops'"
    using Allocate_held [OF that(1)] that(2) by (intro held_Allocate held_run)
  from u l s held_Release show ?thesis by blast
qed

theorem Allocate_unique_and_stable_witness:
  "echo1 \<noteq> echo2
   \<and> held (alloc_run [AllocateOp 1 echo1, AllocateOp 2 echo2] (NewAddressAllocator [2, 3, 4])) echo1 = Some 2
   \<and> held (alloc_run [AllocateOp 1 echo1, AllocateOp 2 echo2] (NewAddressAllocator [2, 3, 4])) echo2 = Some 3
   \<and> Lookup (alloc_run [AllocateOp 1 echo1, AllocateOp 2 echo2] (NewAddressAllocator [2, 3, 4])) 2 = Some echo1
   \<and> fst (Allocate 5 echo1 (alloc_run [AllocateOp 1 echo1, AllocateOp 2 echo2] (NewAddressAllocator [2, 3, 4])))
       = Inr 2
   \<and> ReleaseOp echo1 \<notin> set [AllocateOp 6 echo2, ReleaseOp echo2]
   \<and> fst (Allocate 7 echo1 (alloc_run [AllocateOp 6 echo2, ReleaseOp echo2]
         (snd (Allocate 5 echo1
           (alloc_run [AllocateOp 1 echo1, AllocateOp 2 echo2] (NewAddressAllocator [2, 3, 4]))))))
       = Inr 2
   \<and> held (Release echo1 (alloc_run [AllocateOp 1 echo1, AllocateOp 2 echo2] (NewAddressAllocator [2, 3, 4])))
        echo1 = None"
proof -
  let ?a = "alloc_run [AllocateOp 1 echo1, AllocateOp 2 echo2] (NewAddressAllocator [2, 3, 4])"
  have ne: "echo1 \<noteq> echo2" by (simp add: echo1_def echo2_def)
  have a: "?a = \<lparr>pool = [2, 3, 4],
      leases = [\<lparr>address = 2, appKey = echo1, allocatedAt = 1\<rparr>,
                \<lparr>address = 3, appKey = echo2, allocatedAt = 2\<rparr>]\<rparr>"
    using ne by (simp add: alloc_run_def NewAddressAllocator_def Allocate_def leaseOf_def nextFree_def)
  have h1: "held ?a echo1 = Some 2" and h2: "held ?a echo2 = Some 3"
    using ne unfolding a by (simp_all add: held_def leaseOf_def)
  have al: "fst (Allocate 5 echo1 ?a) = Inr 2"
    unfolding a by (simp add: Allocate_def leaseOf_def)
  have nr: "ReleaseOp echo1 \<notin> set [AllocateOp 6 echo2, ReleaseOp echo2]"
    using ne by simp
  note t = Allocate_unique_and_stable [OF refl, of echo1 echo2
      "[AllocateOp 1 echo1, AllocateOp 2 echo2]" "[2, 3, 4]" 2 3 echo1 2 5
      "[AllocateOp 6 echo2, ReleaseOp echo2]" 7]
  from t h1 have r1: "Lookup ?a 2 = Some echo1" by blast
  from t al nr have r2: "fst (Allocate 7 echo1 (alloc_run [AllocateOp 6 echo2, ReleaseOp echo2]
         (snd (Allocate 5 echo1 ?a)))) = Inr 2" by blast
  from t have r3: "held (Release echo1 ?a) echo1 = None" by blast
  from t ne h1 h2 have "(2::nat) \<noteq> 3" by blast
  with ne h1 h2 al nr r1 r2 r3 show ?thesis by blast
qed

end
